theory Spec2Isabelle
  imports Main "HOL-Library.Word"
begin

unbundle bit_operations_syntax

section \<open>Themes (package theme)\<close>

text \<open>
  A theme is a flat set of string-valued colour fields. The preset table \<open>themes\<close> is a
  Go map keyed by the theme name; it is transcribed entry by entry as an association
  list with distinct keys, and looked up with \<open>map_of\<close>.
\<close>

record Theme =
  Name :: string
  Background :: string
  Foreground :: string
  WindowRed :: string
  WindowYellow :: string
  WindowGreen :: string
  WindowBorder :: string
  Shadow :: string
  Black :: string
  Red :: string
  Green :: string
  Yellow :: string
  Blue :: string
  Magenta :: string
  Cyan :: string
  White :: string
  BrightBlack :: string
  BrightRed :: string
  BrightGreen :: string
  BrightYellow :: string
  BrightBlue :: string
  BrightMagenta :: string
  BrightCyan :: string
  BrightWhite :: string

text \<open>The zero value \<open>Theme{}\<close>: every field is the empty string.\<close>

definition zero_theme :: Theme where
  "zero_theme = \<lparr>
     Name = [], Background = [], Foreground = [],
     WindowRed = [], WindowYellow = [], WindowGreen = [], WindowBorder = [],
     Shadow = [],
     Black = [], Red = [], Green = [], Yellow = [], Blue = [], Magenta = [],
     Cyan = [], White = [],
     BrightBlack = [], BrightRed = [], BrightGreen = [], BrightYellow = [],
     BrightBlue = [], BrightMagenta = [], BrightCyan = [], BrightWhite = [] \<rparr>"

definition default_theme :: Theme where
  "default_theme = \<lparr>
     Name = ''Default'',
     Background = ''#151515'',
     Foreground = ''#D3D3D3'',
     WindowRed = ''#ED655A'',
     WindowYellow = ''#E1C04C'',
     WindowGreen = ''#71BD47'',
     WindowBorder = ''#404040'',
     Shadow = ''#10101066'',
     Black = ''#000000'',
     Red = ''#E06C75'',
     Green = ''#98C379'',
     Yellow = ''#E5C07B'',
     Blue = ''#61AFEF'',
     Magenta = ''#C678DD'',
     Cyan = ''#56B6C2'',
     White = ''#ABB2BF'',
     BrightBlack = ''#5C6370'',
     BrightRed = ''#E06C75'',
     BrightGreen = ''#98C379'',
     BrightYellow = ''#E5C07B'',
     BrightBlue = ''#61AFEF'',
     BrightMagenta = ''#C678DD'',
     BrightCyan = ''#56B6C2'',
     BrightWhite = ''#FFFFFF'' \<rparr>"

definition catppuccin_mocha_theme :: Theme where
  "catppuccin_mocha_theme = \<lparr>
     Name = ''Catppuccin Mocha'',
     Background = ''#1e1e2e'',
     Foreground = ''#cdd6f4'',
     WindowRed = ''#f38ba8'',
     WindowYellow = ''#f9e2af'',
     WindowGreen = ''#a6e3a1'',
     WindowBorder = ''#45475a'',
     Shadow = ''#11111b66'',
     Black = ''#45475a'',
     Red = ''#f38ba8'',
     Green = ''#a6e3a1'',
     Yellow = ''#f9e2af'',
     Blue = ''#89b4fa'',
     Magenta = ''#f5c2e7'',
     Cyan = ''#94e2d5'',
     White = ''#bac2de'',
     BrightBlack = ''#585b70'',
     BrightRed = ''#f38ba8'',
     BrightGreen = ''#a6e3a1'',
     BrightYellow = ''#f9e2af'',
     BrightBlue = ''#89b4fa'',
     BrightMagenta = ''#f5c2e7'',
     BrightCyan = ''#94e2d5'',
     BrightWhite = ''#a6adc8'' \<rparr>"

definition catppuccin_latte_theme :: Theme where
  "catppuccin_latte_theme = \<lparr>
     Name = ''Catppuccin Latte'',
     Background = ''#eff1f5'',
     Foreground = ''#4c4f69'',
     WindowRed = ''#d20f39'',
     WindowYellow = ''#df8e1d'',
     WindowGreen = ''#40a02b'',
     WindowBorder = ''#acb0be'',
     Shadow = ''#e6e9ef66'',
     Black = ''#5c5f77'',
     Red = ''#d20f39'',
     Green = ''#40a02b'',
     Yellow = ''#df8e1d'',
     Blue = ''#1e66f5'',
     Magenta = ''#ea76cb'',
     Cyan = ''#179299'',
     White = ''#acb0be'',
     BrightBlack = ''#6c6f85'',
     BrightRed = ''#d20f39'',
     BrightGreen = ''#40a02b'',
     BrightYellow = ''#df8e1d'',
     BrightBlue = ''#1e66f5'',
     BrightMagenta = ''#ea76cb'',
     BrightCyan = ''#179299'',
     BrightWhite = ''#bcc0cc'' \<rparr>"

definition nord_theme :: Theme where
  "nord_theme = \<lparr>
     Name = ''Nord'',
     Background = ''#2e3440'',
     Foreground = ''#d8dee9'',
     WindowRed = ''#bf616a'',
     WindowYellow = ''#ebcb8b'',
     WindowGreen = ''#a3be8c'',
     WindowBorder = ''#4c566a'',
     Shadow = ''#2e344066'',
     Black = ''#3b4252'',
     Red = ''#bf616a'',
     Green = ''#a3be8c'',
     Yellow = ''#ebcb8b'',
     Blue = ''#81a1c1'',
     Magenta = ''#b48ead'',
     Cyan = ''#88c0d0'',
     White = ''#e5e9f0'',
     BrightBlack = ''#4c566a'',
     BrightRed = ''#bf616a'',
     BrightGreen = ''#a3be8c'',
     BrightYellow = ''#ebcb8b'',
     BrightBlue = ''#81a1c1'',
     BrightMagenta = ''#b48ead'',
     BrightCyan = ''#8fbcbb'',
     BrightWhite = ''#eceff4'' \<rparr>"

definition dracula_theme :: Theme where
  "dracula_theme = \<lparr>
     Name = ''Dracula'',
     Background = ''#282a36'',
     Foreground = ''#f8f8f2'',
     WindowRed = ''#ff5555'',
     WindowYellow = ''#f1fa8c'',
     WindowGreen = ''#50fa7b'',
     WindowBorder = ''#44475a'',
     Shadow = ''#21222c66'',
     Black = ''#21222c'',
     Red = ''#ff5555'',
     Green = ''#50fa7b'',
     Yellow = ''#f1fa8c'',
     Blue = ''#bd93f9'',
     Magenta = ''#ff79c6'',
     Cyan = ''#8be9fd'',
     White = ''#f8f8f2'',
     BrightBlack = ''#6272a4'',
     BrightRed = ''#ff6e6e'',
     BrightGreen = ''#69ff94'',
     BrightYellow = ''#ffffa5'',
     BrightBlue = ''#d6acff'',
     BrightMagenta = ''#ff92df'',
     BrightCyan = ''#a4ffff'',
     BrightWhite = ''#ffffff'' \<rparr>"

definition tokyo_night_theme :: Theme where
  "tokyo_night_theme = \<lparr>
     Name = ''Tokyo Night'',
     Background = ''#1a1b26'',
     Foreground = ''#c0caf5'',
     WindowRed = ''#f7768e'',
     WindowYellow = ''#e0af68'',
     WindowGreen = ''#9ece6a'',
     WindowBorder = ''#414868'',
     Shadow = ''#16161e66'',
     Black = ''#15161e'',
     Red = ''#f7768e'',
     Green = ''#9ece6a'',
     Yellow = ''#e0af68'',
     Blue = ''#7aa2f7'',
     Magenta = ''#bb9af7'',
     Cyan = ''#7dcfff'',
     White = ''#a9b1d6'',
     BrightBlack = ''#414868'',
     BrightRed = ''#f7768e'',
     BrightGreen = ''#9ece6a'',
     BrightYellow = ''#e0af68'',
     BrightBlue = ''#7aa2f7'',
     BrightMagenta = ''#bb9af7'',
     BrightCyan = ''#7dcfff'',
     BrightWhite = ''#c0caf5'' \<rparr>"

definition gruvbox_dark_theme :: Theme where
  "gruvbox_dark_theme = \<lparr>
     Name = ''Gruvbox Dark'',
     Background = ''#282828'',
     Foreground = ''#ebdbb2'',
     WindowRed = ''#cc241d'',
     WindowYellow = ''#d79921'',
     WindowGreen = ''#98971a'',
     WindowBorder = ''#504945'',
     Shadow = ''#1d202166'',
     Black = ''#282828'',
     Red = ''#cc241d'',
     Green = ''#98971a'',
     Yellow = ''#d79921'',
     Blue = ''#458588'',
     Magenta = ''#b16286'',
     Cyan = ''#689d6a'',
     White = ''#a89984'',
     BrightBlack = ''#928374'',
     BrightRed = ''#fb4934'',
     BrightGreen = ''#b8bb26'',
     BrightYellow = ''#fabd2f'',
     BrightBlue = ''#83a598'',
     BrightMagenta = ''#d3869b'',
     BrightCyan = ''#8ec07c'',
     BrightWhite = ''#ebdbb2'' \<rparr>"

definition solarized_dark_theme :: Theme where
  "solarized_dark_theme = \<lparr>
     Name = ''Solarized Dark'',
     Background = ''#002b36'',
     Foreground = ''#839496'',
     WindowRed = ''#dc322f'',
     WindowYellow = ''#b58900'',
     WindowGreen = ''#859900'',
     WindowBorder = ''#073642'',
     Shadow = ''#002b3666'',
     Black = ''#073642'',
     Red = ''#dc322f'',
     Green = ''#859900'',
     Yellow = ''#b58900'',
     Blue = ''#268bd2'',
     Magenta = ''#d33682'',
     Cyan = ''#2aa198'',
     White = ''#eee8d5'',
     BrightBlack = ''#002b36'',
     BrightRed = ''#cb4b16'',
     BrightGreen = ''#586e75'',
     BrightYellow = ''#657b83'',
     BrightBlue = ''#839496'',
     BrightMagenta = ''#6c71c4'',
     BrightCyan = ''#93a1a1'',
     BrightWhite = ''#fdf6e3'' \<rparr>"

definition themes :: "(string \<times> Theme) list" where
  "themes = [(''default'', default_theme),
     (''catppuccin-mocha'', catppuccin_mocha_theme),
     (''catppuccin-latte'', catppuccin_latte_theme),
     (''nord'', nord_theme),
     (''dracula'', dracula_theme),
     (''tokyo-night'', tokyo_night_theme),
     (''gruvbox-dark'', gruvbox_dark_theme),
     (''solarized-dark'', solarized_dark_theme)]"

text \<open>
  Indexing a Go map with a missing key yields the zero value of the element type;
  \<open>map_index\<close> is that read. \<open>GetTheme\<close> uses the two-result form first
  (\<open>theme, ok := themes[name]\<close>) and the one-result form for the fallback.
\<close>

definition map_index :: "(string \<times> Theme) list \<Rightarrow> string \<Rightarrow> Theme" where
  "map_index m k = (case map_of m k of Some t \<Rightarrow> t | None \<Rightarrow> zero_theme)"

definition GetTheme :: "string \<Rightarrow> Theme" where
  "GetTheme name =
     (case map_of themes name of
        Some theme \<Rightarrow> theme
      | None \<Rightarrow> map_index themes ''default'')"

text \<open>\<open>ListThemes\<close> ranges over the keys of the preset table.\<close>

definition ListThemes :: "string list" where
  "ListThemes = map fst themes"

subsection \<open>Theme lookup never fails\<close>

lemma default_is_preset: "map_of themes ''default'' = Some default_theme"
  by (simp add: themes_def)

lemma presets_not_empty: "\<forall>t \<in> set (map snd themes). Name t \<noteq> []"
  by (simp add: themes_def default_theme_def catppuccin_mocha_theme_def
      catppuccin_latte_theme_def nord_theme_def dracula_theme_def tokyo_night_theme_def
      gruvbox_dark_theme_def solarized_dark_theme_def)

text \<open>
  C10. \<open>GetTheme\<close> is a total function of the name. A name that is not a key of the
  preset table yields the entry stored under \<open>default\<close>; a name that is a key yields
  its own entry; the result is never the empty (zero) theme.
\<close>

theorem GetTheme_total_default:
  "(name \<notin> set ListThemes \<longrightarrow> GetTheme name = default_theme)
   \<and> (name \<in> set ListThemes \<longrightarrow> map_of themes name = Some (GetTheme name))
   \<and> map_of themes ''default'' = Some default_theme
   \<and> GetTheme name \<noteq> zero_theme"
proof -
  have a: "name \<notin> set ListThemes \<longrightarrow> GetTheme name = default_theme"
  proof
    assume "name \<notin> set ListThemes"
    then have "map_of themes name = None"
      by (simp add: map_of_eq_None_iff ListThemes_def)
    then show "GetTheme name = default_theme"
      using default_is_preset by (simp add: GetTheme_def map_index_def)
  qed
  have b: "name \<in> set ListThemes \<longrightarrow> map_of themes name = Some (GetTheme name)"
    by (auto simp: GetTheme_def ListThemes_def map_of_eq_None_iff split: option.splits)
  have c: "GetTheme name \<in> set (map snd themes)"
  proof (cases "map_of themes name")
    case None
    then have "GetTheme name = default_theme"
      using default_is_preset by (simp add: GetTheme_def map_index_def)
    then show ?thesis using map_of_SomeD[OF default_is_preset] by force
  next
    case (Some t)
    then have "GetTheme name = t" by (simp add: GetTheme_def)
    then show ?thesis using map_of_SomeD[OF Some] by force
  qed
  have d: "GetTheme name \<noteq> zero_theme"
  proof
    assume "GetTheme name = zero_theme"
    with c presets_not_empty have "Name zero_theme \<noteq> []" by metis
    then show False by (simp add: zero_theme_def)
  qed
  from a b default_is_preset d show ?thesis by blast
qed

theorem GetTheme_total_default_witness:
  "''monokai'' \<notin> set ListThemes \<and> GetTheme ''monokai'' = default_theme
   \<and> ''nord'' \<in> set ListThemes \<and> GetTheme ''nord'' = nord_theme
   \<and> GetTheme ''monokai'' \<noteq> zero_theme"
proof -
  have h1: "''monokai'' \<notin> set ListThemes" by (simp add: ListThemes_def themes_def)
  have h2: "''nord'' \<in> set ListThemes" by (simp add: ListThemes_def themes_def)
  have h3: "map_of themes ''nord'' = Some nord_theme" by (simp add: themes_def)
  from GetTheme_total_default[of "''monokai''"] GetTheme_total_default[of "''nord''"] h1 h2 h3
  show ?thesis by auto
qed

section \<open>Loading a theme from a file (package theme)\<close>

text \<open>
  \<open>LoadThemeFromFile\<close> calls \<open>os.ReadFile\<close> and \<open>json.Unmarshal\<close>, both library functions.
  The model starts from what they deliver. A file is unreadable, or its content is
  malformed (not JSON, or a top-level value that is neither an object nor \<open>null\<close>),
  or it is an object. A top-level \<open>null\<close> leaves the structure as it is, like the
  object with no members, and is that object here. Of an object only the value that
  the decoder binds to each JSON tag of the \<open>Theme\<close> structure matters: a string,
  \<open>null\<close>, or a value of another JSON type. Members that match no tag are ignored
  by the decoder.
\<close>

datatype json_value = JString string | JNull | JOther

datatype file_content =
  Unreadable | Malformed | Object "string \<Rightarrow> json_value option"

datatype load_error = ReadFailed | ParseFailed

text \<open>The JSON tags of the fields of \<open>Theme\<close>, in the order of the structure.\<close>

definition theme_tags :: "string list" where
  "theme_tags =
     [''name'', ''background'', ''foreground'', ''window_red'', ''window_yellow'',
      ''window_green'', ''window_border'', ''shadow'', ''black'', ''red'', ''green'',
      ''yellow'', ''blue'', ''magenta'', ''cyan'', ''white'', ''bright_black'',
      ''bright_red'', ''bright_green'', ''bright_yellow'', ''bright_blue'',
      ''bright_magenta'', ''bright_cyan'', ''bright_white'']"

text \<open>
  Decoding into a string field, as \<open>encoding/json\<close> documents it: a string is stored;
  \<open>null\<close> and an absent member leave the field as it is; any other value is a type
  error, which \<open>Unmarshal\<close> returns after it has gone through the object.
\<close>

definition field_ok :: "(string \<Rightarrow> json_value option) \<Rightarrow> string \<Rightarrow> bool" where
  "field_ok m tag = (m tag \<noteq> Some JOther)"

definition field_val :: "(string \<Rightarrow> json_value option) \<Rightarrow> string \<Rightarrow> string \<Rightarrow> string" where
  "field_val m tag cur = (case m tag of Some (JString s) \<Rightarrow> s | _ \<Rightarrow> cur)"

definition Unmarshal :: "(string \<Rightarrow> json_value option) \<Rightarrow> Theme \<Rightarrow> Theme option" where
  "Unmarshal m t =
     (if list_all (field_ok m) theme_tags then
        Some \<lparr>
        Name = field_val m ''name'' (Name t),
        Background = field_val m ''background'' (Background t),
        Foreground = field_val m ''foreground'' (Foreground t),
        WindowRed = field_val m ''window_red'' (WindowRed t),
        WindowYellow = field_val m ''window_yellow'' (WindowYellow t),
        WindowGreen = field_val m ''window_green'' (WindowGreen t),
        WindowBorder = field_val m ''window_border'' (WindowBorder t),
        Shadow = field_val m ''shadow'' (Shadow t),
        Black = field_val m ''black'' (Black t),
        Red = field_val m ''red'' (Red t),
        Green = field_val m ''green'' (Green t),
        Yellow = field_val m ''yellow'' (Yellow t),
        Blue = field_val m ''blue'' (Blue t),
        Magenta = field_val m ''magenta'' (Magenta t),
        Cyan = field_val m ''cyan'' (Cyan t),
        White = field_val m ''white'' (White t),
        BrightBlack = field_val m ''bright_black'' (BrightBlack t),
        BrightRed = field_val m ''bright_red'' (BrightRed t),
        BrightGreen = field_val m ''bright_green'' (BrightGreen t),
        BrightYellow = field_val m ''bright_yellow'' (BrightYellow t),
        BrightBlue = field_val m ''bright_blue'' (BrightBlue t),
        BrightMagenta = field_val m ''bright_magenta'' (BrightMagenta t),
        BrightCyan = field_val m ''bright_cyan'' (BrightCyan t),
        BrightWhite = field_val m ''bright_white'' (BrightWhite t) \<rparr>
      else None)"

text \<open>
  \<open>LoadThemeFromFile\<close>: \<open>fs\<close> gives the content of the file at a (cleaned) path. The
  decoder is run on \<open>var theme Theme\<close>, the zero theme.
\<close>

definition LoadThemeFromFile :: "(string \<Rightarrow> file_content) \<Rightarrow> string \<Rightarrow> load_error + Theme" where
  "LoadThemeFromFile fs path =
     (case fs path of
        Unreadable \<Rightarrow> Inl ReadFailed
      | Malformed \<Rightarrow> Inl ParseFailed
      | Object m \<Rightarrow>
          (case Unmarshal m zero_theme of
             None \<Rightarrow> Inl ParseFailed
           | Some theme \<Rightarrow> Inr theme))"

text \<open>A field set is complete when the file binds a value to every tag.\<close>

definition complete_fields :: "(string \<Rightarrow> json_value option) \<Rightarrow> bool" where
  "complete_fields m = list_all (\<lambda>tag. m tag \<noteq> None) theme_tags"

subsection \<open>What loading a theme file does\<close>

lemma field_val_absent: "m tag = None \<Longrightarrow> field_val m tag cur = cur"
  by (simp add: field_val_def)

lemma Unmarshal_zero_fields:
  assumes "Unmarshal m zero_theme = Some t"
  shows "Name t = field_val m ''name'' []
           \<and> Background t = field_val m ''background'' []
           \<and> Foreground t = field_val m ''foreground'' []
           \<and> WindowRed t = field_val m ''window_red'' []
           \<and> WindowYellow t = field_val m ''window_yellow'' []
           \<and> WindowGreen t = field_val m ''window_green'' []
           \<and> WindowBorder t = field_val m ''window_border'' []
           \<and> Shadow t = field_val m ''shadow'' []
           \<and> Black t = field_val m ''black'' []
           \<and> Red t = field_val m ''red'' []
           \<and> Green t = field_val m ''green'' []
           \<and> Yellow t = field_val m ''yellow'' []
           \<and> Blue t = field_val m ''blue'' []
           \<and> Magenta t = field_val m ''magenta'' []
           \<and> Cyan t = field_val m ''cyan'' []
           \<and> White t = field_val m ''white'' []
           \<and> BrightBlack t = field_val m ''bright_black'' []
           \<and> BrightRed t = field_val m ''bright_red'' []
           \<and> BrightGreen t = field_val m ''bright_green'' []
           \<and> BrightYellow t = field_val m ''bright_yellow'' []
           \<and> BrightBlue t = field_val m ''bright_blue'' []
           \<and> BrightMagenta t = field_val m ''bright_magenta'' []
           \<and> BrightCyan t = field_val m ''bright_cyan'' []
           \<and> BrightWhite t = field_val m ''bright_white'' []"
  using assms by (auto simp: Unmarshal_def zero_theme_def split: if_splits)

text \<open>
  C6, amended. Loading fails, and the error is returned to the caller, when the file
  is unreadable, when its content is malformed, and when a theme field holds a value
  that is not a string. Otherwise loading succeeds, also when fields are missing:
  every field of the result is the string the file gives for it, and the empty string
  when the file gives none; no other value is substituted.
\<close>

theorem LoadThemeFromFile_result:
  "(fs path = Unreadable \<longrightarrow> LoadThemeFromFile fs path = Inl ReadFailed)
   \<and> (fs path = Malformed \<longrightarrow> LoadThemeFromFile fs path = Inl ParseFailed)
   \<and> (fs path = Object m \<and> \<not> list_all (field_ok m) theme_tags \<longrightarrow>
        LoadThemeFromFile fs path = Inl ParseFailed)
   \<and> (fs path = Object m \<and> list_all (field_ok m) theme_tags \<longrightarrow>
        (\<exists>t. LoadThemeFromFile fs path = Inr t
           \<and> Name t = field_val m ''name'' []
           \<and> Background t = field_val m ''background'' []
           \<and> Foreground t = field_val m ''foreground'' []
           \<and> WindowRed t = field_val m ''window_red'' []
           \<and> WindowYellow t = field_val m ''window_yellow'' []
           \<and> WindowGreen t = field_val m ''window_green'' []
           \<and> WindowBorder t = field_val m ''window_border'' []
           \<and> Shadow t = field_val m ''shadow'' []
           \<and> Black t = field_val m ''black'' []
           \<and> Red t = field_val m ''red'' []
           \<and> Green t = field_val m ''green'' []
           \<and> Yellow t = field_val m ''yellow'' []
           \<and> Blue t = field_val m ''blue'' []
           \<and> Magenta t = field_val m ''magenta'' []
           \<and> Cyan t = field_val m ''cyan'' []
           \<and> White t = field_val m ''white'' []
           \<and> BrightBlack t = field_val m ''bright_black'' []
           \<and> BrightRed t = field_val m ''bright_red'' []
           \<and> BrightGreen t = field_val m ''bright_green'' []
           \<and> BrightYellow t = field_val m ''bright_yellow'' []
           \<and> BrightBlue t = field_val m ''bright_blue'' []
           \<and> BrightMagenta t = field_val m ''bright_magenta'' []
           \<and> BrightCyan t = field_val m ''bright_cyan'' []
           \<and> BrightWhite t = field_val m ''bright_white'' []))"
proof -
  have a: "fs path = Unreadable \<longrightarrow> LoadThemeFromFile fs path = Inl ReadFailed"
    by (simp add: LoadThemeFromFile_def)
  have b: "fs path = Malformed \<longrightarrow> LoadThemeFromFile fs path = Inl ParseFailed"
    by (simp add: LoadThemeFromFile_def)
  have c: "fs path = Object m \<and> \<not> list_all (field_ok m) theme_tags \<longrightarrow>
        LoadThemeFromFile fs path = Inl ParseFailed"
    by (simp add: LoadThemeFromFile_def Unmarshal_def)
  have d: "\<exists>t. LoadThemeFromFile fs path = Inr t
           \<and> Name t = field_val m ''name'' []
           \<and> Background t = field_val m ''background'' []
           \<and> Foreground t = field_val m ''foreground'' []
           \<and> WindowRed t = field_val m ''window_red'' []
           \<and> WindowYellow t = field_val m ''window_yellow'' []
           \<and> WindowGreen t = field_val m ''window_green'' []
           \<and> WindowBorder t = field_val m ''window_border'' []
           \<and> Shadow t = field_val m ''shadow'' []
           \<and> Black t = field_val m ''black'' []
           \<and> Red t = field_val m ''red'' []
           \<and> Green t = field_val m ''green'' []
           \<and> Yellow t = field_val m ''yellow'' []
           \<and> Blue t = field_val m ''blue'' []
           \<and> Magenta t = field_val m ''magenta'' []
           \<and> Cyan t = field_val m ''cyan'' []
           \<and> White t = field_val m ''white'' []
           \<and> BrightBlack t = field_val m ''bright_black'' []
           \<and> BrightRed t = field_val m ''bright_red'' []
           \<and> BrightGreen t = field_val m ''bright_green'' []
           \<and> BrightYellow t = field_val m ''bright_yellow'' []
           \<and> BrightBlue t = field_val m ''bright_blue'' []
           \<and> BrightMagenta t = field_val m ''bright_magenta'' []
           \<and> BrightCyan t = field_val m ''bright_cyan'' []
           \<and> BrightWhite t = field_val m ''bright_white'' []"
    if "fs path = Object m" and "list_all (field_ok m) theme_tags"
  proof -
    from that(2) obtain t where u: "Unmarshal m zero_theme = Some t"
      by (simp add: Unmarshal_def)
    from that(1) u have "LoadThemeFromFile fs path = Inr t"
      by (simp add: LoadThemeFromFile_def)
    with Unmarshal_zero_fields[OF u] show ?thesis by blast
  qed
  from a b c d show ?thesis by blast
qed

text \<open>The file \<open>{"name": "Mine"}\<close>: one field given, twenty-three missing.\<close>

definition only_name :: "string \<Rightarrow> json_value option" where
  "only_name = Map.empty(''name'' \<mapsto> JString ''Mine'')"

lemma only_name_ok: "list_all (field_ok only_name) theme_tags"
  by (simp add: only_name_def field_ok_def theme_tags_def)

theorem LoadThemeFromFile_result_witness:
  "\<exists>t. LoadThemeFromFile (\<lambda>p. Object only_name) ''mine.json'' = Inr t
       \<and> Name t = ''Mine'' \<and> Background t = [] \<and> Foreground t = [] \<and> Green t = []"
proof -
  from LoadThemeFromFile_result[of "\<lambda>p. Object only_name" "''mine.json''" only_name] only_name_ok
  obtain t where "LoadThemeFromFile (\<lambda>p. Object only_name) ''mine.json'' = Inr t"
    and "Name t = field_val only_name ''name'' []"
    and "Background t = field_val only_name ''background'' []"
    and "Foreground t = field_val only_name ''foreground'' []"
    and "Green t = field_val only_name ''green'' []"
    by auto
  then show ?thesis by (auto simp: field_val_def only_name_def)
qed

text \<open>
  C6 as stated fails: the file \<open>{"name": "Mine"}\<close> has an incomplete field set, and
  loading it succeeds.
\<close>

theorem LoadThemeFromFile_counterexample:
  "\<not> complete_fields only_name
   \<and> LoadThemeFromFile (\<lambda>p. Object only_name) ''mine.json'' = Inr (zero_theme\<lparr>Name := ''Mine''\<rparr>)"
  by (simp add: complete_fields_def theme_tags_def only_name_def LoadThemeFromFile_def
      Unmarshal_def field_ok_def field_val_def zero_theme_def)

section \<open>Styled characters and machine integers\<close>

text \<open>
  \<open>bunt.ColoredRune\<close>: a rune (\<open>int32\<close> code point) and its packed \<open>uint64\<close> style
  bits. A \<open>bunt.String\<close> is a slice of them. The decoder \<open>bunt.ParseStream\<close> is an
  external library: the functions below start from the sequence it returns.
\<close>

record ColoredRune =
  Symbol :: int
  Settings :: "64 word"

text \<open>\<open>bunt.ColoredRune{Symbol: ' '}\<close> and the newline with given style bits.\<close>

definition blank :: ColoredRune where
  "blank = \<lparr>Symbol = 32, Settings = 0\<rparr>"

definition newline :: "64 word \<Rightarrow> ColoredRune" where
  "newline st = \<lparr>Symbol = 10, Settings = st\<rparr>"

text \<open>
  Go's \<open>int\<close> is 64 bits wide on the supported platforms and wraps around on
  overflow. Cursor fields and parameters are modelled as \<open>int\<close> with the wrap-around
  written out on every addition and subtraction.
\<close>

definition MaxInt64 :: int where
  "MaxInt64 = 2 ^ 63 - 1"

definition wrap64 :: "int \<Rightarrow> int" where
  "wrap64 x = (x + 2 ^ 63) mod 2 ^ 64 - 2 ^ 63"

text \<open>
  Run-time failures of the Go code, as values: the panics of indexing and slicing,
  and the abort of the runtime when a slice cannot grow any further.
\<close>

datatype go_panic = IndexOutOfRange | SliceBoundsOutOfRange | OutOfMemory

section \<open>The virtual terminal (package ansi)\<close>

record VirtualTerminal =
  lines :: "ColoredRune list list"
  cursorX :: int
  cursorY :: int
  settings :: "64 word"
  maxColumns :: int

definition NewVirtualTerminal :: "int \<Rightarrow> VirtualTerminal" where
  "NewVirtualTerminal mc =
     \<lparr>lines = [[]], cursorX = 0, cursorY = 0, settings = 0,
      maxColumns = (if mc \<le> 0 then 80 else mc)\<rparr>"

text \<open>
  The loop \<open>for len(vt.lines) <= line\<close> of \<open>ensureLineExists\<close>, which appends one
  empty row per iteration, and the loop \<open>for len(row) <= vt.cursorX\<close> of \<open>Parse\<close>,
  which appends one blank per iteration.
\<close>

function ensure_rows :: "ColoredRune list list \<Rightarrow> int \<Rightarrow> ColoredRune list list" where
  "ensure_rows ls line = (if int (length ls) \<le> line then ensure_rows (ls @ [[]]) line else ls)"
  by pat_completeness auto
termination
  by (relation "measure (\<lambda>(ls, line). nat (line + 1 - int (length ls)))") auto

declare ensure_rows.simps [simp del]

function pad_row :: "ColoredRune list \<Rightarrow> int \<Rightarrow> ColoredRune list" where
  "pad_row row x = (if int (length row) \<le> x then pad_row (row @ [blank]) x else row)"
  by pat_completeness auto
termination
  by (relation "measure (\<lambda>(row, x). nat (x + 1 - int (length row)))") auto

declare pad_row.simps [simp del]

text \<open>
  The length of a Go slice is an \<open>int\<close>. When the bound of one of these loops is the
  largest \<open>int\<close>, the loop condition can never fail: the loop appends until the
  runtime aborts for lack of memory. Below that bound the model lets the loop finish.
\<close>

definition ensureLineExists :: "VirtualTerminal \<Rightarrow> int \<Rightarrow> go_panic + VirtualTerminal" where
  "ensureLineExists vt line =
     (if MaxInt64 \<le> line then Inl OutOfMemory
      else Inr (vt\<lparr>lines := ensure_rows (lines vt) line\<rparr>))"

definition clearToEndOfLine :: "VirtualTerminal \<Rightarrow> go_panic + VirtualTerminal" where
  "clearToEndOfLine vt =
     (if cursorY vt < int (length (lines vt)) then
        (if cursorY vt < 0 then Inl IndexOutOfRange
         else let y = nat (cursorY vt); row = lines vt ! y in
           if cursorX vt < int (length row) then
             (if cursorX vt < 0 then Inl SliceBoundsOutOfRange
              else Inr (vt\<lparr>lines := (lines vt)[y := take (nat (cursorX vt)) row]\<rparr>))
           else Inr vt)
      else Inr vt)"

text \<open>
  The loop of \<open>clearToBeginningOfLine\<close> tests \<open>i <= vt.cursorX\<close> before it indexes the
  row, so with a negative column the row is never read. Otherwise it overwrites the
  cells \<open>0 .. min(cursorX, len - 1)\<close> with blanks.
\<close>

definition clearToBeginningOfLine :: "VirtualTerminal \<Rightarrow> go_panic + VirtualTerminal" where
  "clearToBeginningOfLine vt =
     (if cursorY vt < int (length (lines vt)) then
        (if cursorX vt < 0 then Inr vt
         else if cursorY vt < 0 then Inl IndexOutOfRange
         else let y = nat (cursorY vt); row = lines vt ! y;
                  k = min (nat (cursorX vt) + 1) (length row) in
           Inr (vt\<lparr>lines := (lines vt)[y := replicate k blank @ drop k row]\<rparr>))
      else Inr vt)"

definition clearLine :: "VirtualTerminal \<Rightarrow> go_panic + VirtualTerminal" where
  "clearLine vt =
     (if cursorY vt < int (length (lines vt)) then
        (if cursorY vt < 0 then Inl IndexOutOfRange
         else Inr (vt\<lparr>lines := (lines vt)[nat (cursorY vt) := []]\<rparr>))
      else Inr vt)"

definition clearToEndOfScreen :: "VirtualTerminal \<Rightarrow> go_panic + VirtualTerminal" where
  "clearToEndOfScreen vt =
     (case clearToEndOfLine vt of
        Inl e \<Rightarrow> Inl e
      | Inr vt1 \<Rightarrow>
          let y1 = wrap64 (cursorY vt1 + 1) in
          if y1 < int (length (lines vt1)) then
            (if y1 < 0 then Inl SliceBoundsOutOfRange
             else Inr (vt1\<lparr>lines := take (nat y1) (lines vt1)\<rparr>))
          else Inr vt1)"

text \<open>
  The first loop of \<open>clearToBeginningOfScreen\<close> empties the rows
  \<open>0 .. min(cursorY, len) - 1\<close>.
\<close>

definition clearToBeginningOfScreen :: "VirtualTerminal \<Rightarrow> go_panic + VirtualTerminal" where
  "clearToBeginningOfScreen vt =
     (let k = min (nat (cursorY vt)) (length (lines vt)) in
      clearToBeginningOfLine (vt\<lparr>lines := replicate k [] @ drop k (lines vt)\<rparr>))"

definition clearScreen :: "VirtualTerminal \<Rightarrow> VirtualTerminal" where
  "clearScreen vt = vt\<lparr>lines := [[]], cursorX := 0, cursorY := 0\<rparr>"

text \<open>
  \<open>strconv.Atoi\<close> on a non-empty string of ASCII digits: the decimal value, or the
  largest \<open>int\<close> when the value does not fit (the range error is discarded by the
  caller, the clamped value is used).
\<close>

definition Atoi :: "int list \<Rightarrow> int" where
  "Atoi ds = min (foldl (\<lambda>a d. 10 * a + (d - 48)) 0 ds) MaxInt64"

text \<open>
  The parameter scan of \<open>handleCSI\<close>: \<open>buf\<close> is the content of \<open>paramBuf\<close>. The result
  is the index where the scan stopped and the parameters read so far.
\<close>

function scan_params ::
  "ColoredRune list \<Rightarrow> nat \<Rightarrow> int list \<Rightarrow> int list \<Rightarrow> nat \<times> int list" where
  "scan_params parsed i params buf =
     (if i < length parsed then
        (let ch = Symbol (parsed ! i) in
         if 48 \<le> ch \<and> ch \<le> 57 then scan_params parsed (i + 1) params (buf @ [ch])
         else if ch = 59 then
           (if buf \<noteq> [] then scan_params parsed (i + 1) (params @ [Atoi buf]) []
            else scan_params parsed (i + 1) (params @ [0]) [])
         else (i, if buf \<noteq> [] then params @ [Atoi buf] else params))
      else (i, params))"
  by pat_completeness auto
termination
  by (relation "measure (\<lambda>(parsed, i, params, buf). length parsed - i)") auto

declare scan_params.simps [simp del]

text \<open>The defaulting of parameters in the command switch.\<close>

definition count_param :: "int list \<Rightarrow> int" where
  "count_param params = (if params \<noteq> [] \<and> hd params > 0 then hd params else 1)"

definition first_param :: "int list \<Rightarrow> int \<Rightarrow> int" where
  "first_param params d = (if params \<noteq> [] then hd params else d)"

definition second_param :: "int list \<Rightarrow> int \<Rightarrow> int" where
  "second_param params d = (if length params > 1 then params ! 1 else d)"

definition clamp0 :: "int \<Rightarrow> int" where
  "clamp0 x = (if x < 0 then 0 else x)"

text \<open>
  \<open>handleCSI\<close> returns the terminal, the number of runes consumed and whether the
  sequence was handled; a failure of one of the operations it calls is passed on.
\<close>

definition csi_command ::
  "VirtualTerminal \<Rightarrow> int \<Rightarrow> int list \<Rightarrow> nat \<Rightarrow> go_panic + (VirtualTerminal \<times> nat \<times> bool)" where
  "csi_command vt command params consumed =
     (if command = 65 then
        Inr (vt\<lparr>cursorY := clamp0 (wrap64 (cursorY vt - count_param params))\<rparr>, consumed, True)
      else if command = 66 then
        (let y = wrap64 (cursorY vt + count_param params) in
         case ensureLineExists (vt\<lparr>cursorY := y\<rparr>) y of
           Inl e \<Rightarrow> Inl e | Inr vt' \<Rightarrow> Inr (vt', consumed, True))
      else if command = 67 then
        Inr (vt\<lparr>cursorX := wrap64 (cursorX vt + count_param params)\<rparr>, consumed, True)
      else if command = 68 then
        Inr (vt\<lparr>cursorX := clamp0 (wrap64 (cursorX vt - count_param params))\<rparr>, consumed, True)
      else if command = 71 then
        Inr (vt\<lparr>cursorX := clamp0 (wrap64 (first_param params 1 - 1))\<rparr>, consumed, True)
      else if command = 72 \<or> command = 102 then
        (let y = clamp0 (wrap64 (first_param params 1 - 1));
             x = clamp0 (wrap64 (second_param params 1 - 1)) in
         case ensureLineExists (vt\<lparr>cursorY := y, cursorX := x\<rparr>) y of
           Inl e \<Rightarrow> Inl e | Inr vt' \<Rightarrow> Inr (vt', consumed, True))
      else if command = 74 then
        (let mode = first_param params 0 in
         if mode = 0 then
           (case clearToEndOfScreen vt of Inl e \<Rightarrow> Inl e | Inr vt' \<Rightarrow> Inr (vt', consumed, True))
         else if mode = 1 then
           (case clearToBeginningOfScreen vt of Inl e \<Rightarrow> Inl e | Inr vt' \<Rightarrow> Inr (vt', consumed, True))
         else if mode = 2 \<or> mode = 3 then Inr (clearScreen vt, consumed, True)
         else Inr (vt, consumed, True))
      else if command = 75 then
        (let mode = first_param params 0 in
         if mode = 0 then
           (case clearToEndOfLine vt of Inl e \<Rightarrow> Inl e | Inr vt' \<Rightarrow> Inr (vt', consumed, True))
         else if mode = 1 then
           (case clearToBeginningOfLine vt of Inl e \<Rightarrow> Inl e | Inr vt' \<Rightarrow> Inr (vt', consumed, True))
         else if mode = 2 then
           (case clearLine vt of Inl e \<Rightarrow> Inl e | Inr vt' \<Rightarrow> Inr (vt', consumed, True))
         else Inr (vt, consumed, True))
      else if command = 115 \<or> command = 117 then Inr (vt, consumed, True)
      else Inr (vt, 0, False))"

definition handleCSI ::
  "VirtualTerminal \<Rightarrow> ColoredRune list \<Rightarrow> nat \<Rightarrow> go_panic + (VirtualTerminal \<times> nat \<times> bool)" where
  "handleCSI vt parsed start =
     (if start + 2 \<ge> length parsed then Inr (vt, 0, False)
      else
        (case scan_params parsed (start + 2) [] [] of
           (i, params) \<Rightarrow>
             if i \<ge> length parsed then Inr (vt, 0, False)
             else csi_command vt (Symbol (parsed ! i)) params (i - start + 1)))"

text \<open>
  The write of a regular character: make the cursor row exist, pad it with blanks
  up to the cursor column, wrap when the column has reached \<open>maxColumns\<close>, store the
  character and advance. The index expressions panic when out of range.
\<close>

definition write_rune :: "VirtualTerminal \<Rightarrow> ColoredRune \<Rightarrow> go_panic + VirtualTerminal" where
  "write_rune vt cr =
     (case ensureLineExists vt (cursorY vt) of
        Inl e \<Rightarrow> Inl e
      | Inr vt1 \<Rightarrow>
          if cursorY vt1 < 0 then Inl IndexOutOfRange
          else if MaxInt64 \<le> cursorX vt1 then Inl OutOfMemory
          else
            let y = nat (cursorY vt1);
                vt2 = vt1\<lparr>lines := (lines vt1)[y := pad_row (lines vt1 ! y) (cursorX vt1)]\<rparr>
            in
              case (if cursorX vt2 \<ge> maxColumns vt2 then
                      (let y' = wrap64 (cursorY vt2 + 1) in
                       ensureLineExists (vt2\<lparr>cursorY := y', cursorX := 0\<rparr>) y')
                    else Inr vt2) of
                Inl e \<Rightarrow> Inl e
              | Inr vt3 \<Rightarrow>
                  if cursorY vt3 < 0 \<or> int (length (lines vt3)) \<le> cursorY vt3
                  then Inl IndexOutOfRange
                  else
                    let y3 = nat (cursorY vt3); row3 = lines vt3 ! y3 in
                    if cursorX vt3 < 0 \<or> int (length row3) \<le> cursorX vt3 then Inl IndexOutOfRange
                    else Inr (vt3\<lparr>lines := (lines vt3)[y3 := row3[nat (cursorX vt3) := cr]],
                                  cursorX := wrap64 (cursorX vt3 + 1)\<rparr>))"

text \<open>
  The handling of a character that is not \<open>ESC\<close>: carriage return, newline,
  backspace, or a regular character.
\<close>

definition put_rune :: "VirtualTerminal \<Rightarrow> ColoredRune \<Rightarrow> go_panic + VirtualTerminal" where
  "put_rune vt cr =
     (if Symbol cr = 13 then Inr (vt\<lparr>cursorX := 0\<rparr>)
      else if Symbol cr = 10 then
        (let y = wrap64 (cursorY vt + 1) in
         ensureLineExists (vt\<lparr>cursorY := y, cursorX := 0\<rparr>) y)
      else if Symbol cr = 8 then
        Inr (if cursorX vt > 0 then vt\<lparr>cursorX := wrap64 (cursorX vt - 1)\<rparr> else vt)
      else write_rune vt cr)"

text \<open>
  One iteration of the loop of \<open>Parse\<close> at index \<open>i < len(parsed)\<close>: the new terminal
  and the new index.
\<close>

definition parse_step ::
  "ColoredRune list \<Rightarrow> VirtualTerminal \<Rightarrow> nat \<Rightarrow> go_panic + (VirtualTerminal \<times> nat)" where
  "parse_step parsed vt i =
     (let cr = parsed ! i in
      if Symbol cr = 27 then
        (if i + 1 < length parsed \<and> Symbol (parsed ! (i + 1)) = 91 then
           (case handleCSI vt parsed i of
              Inl e \<Rightarrow> Inl e
            | Inr (vt', consumed, handled) \<Rightarrow>
                if handled then Inr (vt', i + consumed) else Inr (vt', i + 1))
         else Inr (vt, i + 1))
      else
        (case put_rune vt cr of Inl e \<Rightarrow> Inl e | Inr vt' \<Rightarrow> Inr (vt', i + 1)))"

text \<open>\<open>toBuntString\<close>: the rows joined by a newline that carries the style bits of the
  last character of the row before it (or none when that row is empty).\<close>

fun join_rows :: "ColoredRune list list \<Rightarrow> ColoredRune list" where
  "join_rows [] = []"
| "join_rows [line] = line"
| "join_rows (line # rest) =
     line @ [newline (if line \<noteq> [] then Settings (last line) else 0)] @ join_rows rest"

definition toBuntString :: "VirtualTerminal \<Rightarrow> ColoredRune list" where
  "toBuntString vt = join_rows (lines vt)"

subsection \<open>The inner loops in closed form\<close>

lemma ensure_rows_eq:
  "ensure_rows ls line = ls @ replicate (nat (line + 1 - int (length ls))) []"
proof (induction ls line rule: ensure_rows.induct)
  case (1 ls line)
  show ?case
  proof (cases "int (length ls) \<le> line")
    case True
    then have "nat (line + 1 - int (length ls)) = Suc (nat (line + 1 - int (length (ls @ [[]]))))"
      by simp
    with True "1.IH" show ?thesis
      by (subst ensure_rows.simps) (simp add: replicate_app_Cons_same)
  next
    case False
    then show ?thesis by (subst ensure_rows.simps) simp
  qed
qed

lemma pad_row_eq:
  "pad_row row x = row @ replicate (nat (x + 1 - int (length row))) blank"
proof (induction row x rule: pad_row.induct)
  case (1 row x)
  show ?case
  proof (cases "int (length row) \<le> x")
    case True
    then have "nat (x + 1 - int (length row)) = Suc (nat (x + 1 - int (length (row @ [blank]))))"
      by simp
    with True "1.IH" show ?thesis
      by (subst pad_row.simps) (simp add: replicate_app_Cons_same)
  next
    case False
    then show ?thesis by (subst pad_row.simps) simp
  qed
qed

subsection \<open>The loop of \<open>Parse\<close> advances\<close>

lemma scan_params_ge: "i \<le> fst (scan_params parsed i params buf)"
proof (induction parsed i params buf rule: scan_params.induct)
  case (1 parsed i params buf)
  show ?case
    apply (subst scan_params.simps)
    using 1 by (auto simp: Let_def intro: Suc_leD)
qed

lemma csi_command_consumed:
  "csi_command vt c ps k = Inr (vt', consumed, True) \<Longrightarrow> consumed = k"
  by (auto simp: csi_command_def Let_def split: if_splits sum.splits)

lemma handleCSI_consumed:
  assumes "handleCSI vt parsed start = Inr (vt', consumed, True)"
  shows "3 \<le> consumed \<and> start + consumed \<le> length parsed"
proof -
  from assms have lt: "start + 2 < length parsed"
    by (auto simp: handleCSI_def split: if_splits)
  obtain i ps where sp: "scan_params parsed (start + 2) [] [] = (i, ps)"
    by (cases "scan_params parsed (start + 2) [] []")
  have ge: "start + 2 \<le> i"
    using scan_params_ge[of "start + 2" parsed "[]" "[]"] sp by simp
  from assms lt sp have il: "i < length parsed"
    by (auto simp: handleCSI_def split: if_splits)
  from assms lt sp il
  have "csi_command vt (Symbol (parsed ! i)) ps (i - start + 1) = Inr (vt', consumed, True)"
    by (auto simp: handleCSI_def split: if_splits)
  then have "consumed = i - start + 1" by (rule csi_command_consumed)
  with ge il show ?thesis by arith
qed

lemma parse_step_progress:
  assumes "parse_step parsed vt i = Inr (vt', i')"
  shows "i < i'"
  using assms handleCSI_consumed[of vt parsed i]
  by (auto simp: parse_step_def Let_def split: if_splits sum.splits)

lemma parse_step_bound:
  assumes "parse_step parsed vt i = Inr (vt', i')" and "i < length parsed"
  shows "i' \<le> length parsed"
  using assms handleCSI_consumed[of vt parsed i]
  by (auto simp: parse_step_def Let_def split: if_splits sum.splits)

text \<open>
  The loop \<open>for i < len(*parsed)\<close> of \<open>Parse\<close>, started at index \<open>i\<close> on the sequence
  \<open>parsed\<close> that the decoder returned. A failure ends the run.
\<close>

function parse_loop ::
  "ColoredRune list \<Rightarrow> VirtualTerminal \<Rightarrow> nat \<Rightarrow> go_panic + VirtualTerminal" where
  "parse_loop parsed vt i =
     (if i < length parsed then
        (case parse_step parsed vt i of
           Inl e \<Rightarrow> Inl e
         | Inr (vt', i') \<Rightarrow> parse_loop parsed vt' i')
      else Inr vt)"
  by pat_completeness auto
termination
proof (relation "measure (\<lambda>(parsed, vt, i). length parsed - i)")
  show "wf (measure (\<lambda>(parsed, vt, i). length parsed - i))" by simp
next
  fix parsed :: "ColoredRune list" and vt i x2 vt' i'
  assume "i < length parsed" and "parse_step parsed vt i = Inr x2" and "(vt', i') = x2"
  then have "i < i'" using parse_step_progress[of parsed vt i vt' i'] by simp
  with \<open>i < length parsed\<close>
  show "((parsed, vt', i'), (parsed, vt, i)) \<in> measure (\<lambda>(parsed, vt, i). length parsed - i)"
    by simp
qed

declare parse_loop.simps [simp del]

text \<open>
  \<open>Parse\<close> reads its input with \<open>io.ReadAll\<close> and decodes it with \<open>bunt.ParseStream\<close>
  before the loop runs. Both are library functions and parameters here: \<open>readAll\<close>
  gives the bytes or fails, \<open>parseStream\<close> gives the styled characters, fails with an
  error, or panics. What the decoder does with escape sequences and control
  characters in the bytes is the decoder's matter; the loop works on its result.
\<close>

datatype stream_result = StreamError | StreamPanic | Decoded "ColoredRune list"

datatype parse_failure = ReadAllFailed | ParseStreamFailed | DecoderPanicked | Panicked go_panic

definition Parse ::
  "('r \<Rightarrow> 'b option) \<Rightarrow> ('b \<Rightarrow> stream_result) \<Rightarrow> VirtualTerminal \<Rightarrow> 'r
     \<Rightarrow> parse_failure + ColoredRune list" where
  "Parse readAll parseStream vt input =
     (case readAll input of
        None \<Rightarrow> Inl ReadAllFailed
      | Some data \<Rightarrow>
          (case parseStream data of
             StreamError \<Rightarrow> Inl ParseStreamFailed
           | StreamPanic \<Rightarrow> Inl DecoderPanicked
           | Decoded parsed \<Rightarrow>
               (case parse_loop parsed vt 0 of
                  Inl e \<Rightarrow> Inl (Panicked e)
                | Inr vt' \<Rightarrow> Inr (toBuntString vt'))))"

text \<open>
  The same loop with a bound on the number of iterations: \<open>None\<close> when the bound is
  used up before the loop condition fails.
\<close>

primrec parse_fuel ::
  "nat \<Rightarrow> ColoredRune list \<Rightarrow> VirtualTerminal \<Rightarrow> nat \<Rightarrow> (go_panic + VirtualTerminal) option" where
  "parse_fuel 0 parsed vt i = (if i < length parsed then None else Some (Inr vt))"
| "parse_fuel (Suc n) parsed vt i =
     (if i < length parsed then
        (case parse_step parsed vt i of
           Inl e \<Rightarrow> Some (Inl e)
         | Inr (vt', i') \<Rightarrow> parse_fuel n parsed vt' i')
      else Some (Inr vt))"

text \<open>An unstyled sequence: the runes with no style bits.\<close>

definition plain :: "int list \<Rightarrow> ColoredRune list" where
  "plain rs = map (\<lambda>r. \<lparr>Symbol = r, Settings = 0\<rparr>) rs"

text \<open>Unstyled ASCII text as a decoded sequence, and \<open>ESC [\<close> followed by ASCII text.\<close>

definition ascii :: "string \<Rightarrow> ColoredRune list" where
  "ascii s = plain (map of_char s)"

definition CSI :: "string \<Rightarrow> ColoredRune list" where
  "CSI s = plain [27, 91] @ ascii s"

section \<open>Properties of the virtual terminal\<close>

subsection \<open>Erase in line\<close>

lemma scan_erase_line:
  "scan_params (CSI ''K'') (0 + 2) [] [] = (2, [])"
  "scan_params (CSI ''0K'') (0 + 2) [] [] = (3, [0])"
  "scan_params (CSI ''2K'') (0 + 2) [] [] = (3, [2])"
  "scan_params (CSI ''3G'') (0 + 2) [] [] = (3, [3])"
  by code_simp+

lemma length_erase_line:
  "length (CSI ''K'') = 3" "length (CSI ''0K'') = 4" "length (CSI ''2K'') = 4"
  "length (CSI ''3G'') = 4"
  by code_simp+

lemma command_erase_line:
  "Symbol (CSI ''K'' ! 2) = 75" "Symbol (CSI ''0K'' ! 3) = 75" "Symbol (CSI ''2K'' ! 3) = 75"
  "Symbol (CSI ''3G'' ! 3) = 71"
  by code_simp+

lemma handleCSI_K: "handleCSI vt (CSI ''K'') 0 = csi_command vt 75 [] 3"
  unfolding handleCSI_def scan_erase_line length_erase_line
  by (simp add: command_erase_line)

lemma handleCSI_0K: "handleCSI vt (CSI ''0K'') 0 = csi_command vt 75 [0] 4"
  unfolding handleCSI_def scan_erase_line length_erase_line
  by (simp add: command_erase_line)

lemma handleCSI_2K: "handleCSI vt (CSI ''2K'') 0 = csi_command vt 75 [2] 4"
  unfolding handleCSI_def scan_erase_line length_erase_line
  by (simp add: command_erase_line)

lemma handleCSI_3G: "handleCSI vt (CSI ''3G'') 0 = csi_command vt 71 [3] 4"
  unfolding handleCSI_def scan_erase_line length_erase_line
  by (simp add: command_erase_line)

lemma move_to_column_2:
  "handleCSI vt (CSI ''3G'') 0 = Inr (vt\<lparr>cursorX := 2\<rparr>, 4, True)"
  by (simp add: handleCSI_3G csi_command_def first_param_def clamp0_def wrap64_def)

lemma erase_to_end_of_line:
  assumes "0 \<le> cursorY vt" and "cursorY vt < int (length (lines vt))" and "0 \<le> cursorX vt"
  shows "handleCSI vt (CSI ''K'') 0 =
     Inr (vt\<lparr>lines := (lines vt)[nat (cursorY vt) :=
            take (nat (cursorX vt)) (lines vt ! nat (cursorY vt))]\<rparr>, 3, True)"
    and "handleCSI vt (CSI ''0K'') 0 =
     Inr (vt\<lparr>lines := (lines vt)[nat (cursorY vt) :=
            take (nat (cursorX vt)) (lines vt ! nat (cursorY vt))]\<rparr>, 4, True)"
  using assms
  by (simp_all add: handleCSI_K handleCSI_0K csi_command_def first_param_def
      clearToEndOfLine_def Let_def)

lemma erase_whole_line:
  assumes "0 \<le> cursorY vt" and "cursorY vt < int (length (lines vt))"
  shows "handleCSI vt (CSI ''2K'') 0 =
     Inr (vt\<lparr>lines := (lines vt)[nat (cursorY vt) := []]\<rparr>, 4, True)"
  using assms
  by (simp add: handleCSI_2K csi_command_def first_param_def clearLine_def Let_def)

text \<open>
  C8. The statements are about \<open>handleCSI\<close>, called at a sequence \<open>ESC [ ... K\<close>, on
  any terminal. \<open>ESC [ 3 G\<close> (1-based on the wire) puts the cursor in column 2. On a
  terminal whose cursor row exists and reads \<open>abcdef\<close>, with the cursor in column 2,
  erase in line with mode 0 (\<open>ESC [ K\<close> or \<open>ESC [ 0 K\<close>) leaves exactly the first two
  cells of that row, which read \<open>ab\<close>. Mode 2 (\<open>ESC [ 2 K\<close>) empties the cursor row
  whatever the cursor column is. No other row and no cursor field changes.
\<close>

theorem erase_in_line:
  "handleCSI vt (CSI ''3G'') 0 = Inr (vt\<lparr>cursorX := 2\<rparr>, 4, True)
   \<and> (0 \<le> cursorY vt \<and> cursorY vt < int (length (lines vt)) \<and> cursorX vt = 2
        \<and> map Symbol (lines vt ! nat (cursorY vt)) = map of_char ''abcdef'' \<longrightarrow>
      (\<exists>row. handleCSI vt (CSI ''K'') 0 =
                Inr (vt\<lparr>lines := (lines vt)[nat (cursorY vt) := row]\<rparr>, 3, True)
             \<and> handleCSI vt (CSI ''0K'') 0 =
                Inr (vt\<lparr>lines := (lines vt)[nat (cursorY vt) := row]\<rparr>, 4, True)
             \<and> row = take 2 (lines vt ! nat (cursorY vt))
             \<and> map Symbol row = map of_char ''ab''))
   \<and> (0 \<le> cursorY vt \<and> cursorY vt < int (length (lines vt)) \<longrightarrow>
      handleCSI vt (CSI ''2K'') 0 =
        Inr (vt\<lparr>lines := (lines vt)[nat (cursorY vt) := []]\<rparr>, 4, True))"
proof -
  have m0: "handleCSI vt (CSI ''K'') 0 =
              Inr (vt\<lparr>lines := (lines vt)[nat (cursorY vt) :=
                     take 2 (lines vt ! nat (cursorY vt))]\<rparr>, 3, True)
            \<and> handleCSI vt (CSI ''0K'') 0 =
              Inr (vt\<lparr>lines := (lines vt)[nat (cursorY vt) :=
                     take 2 (lines vt ! nat (cursorY vt))]\<rparr>, 4, True)
            \<and> map Symbol (take 2 (lines vt ! nat (cursorY vt))) = map of_char ''ab''"
    if "0 \<le> cursorY vt" "cursorY vt < int (length (lines vt))" "cursorX vt = 2"
      "map Symbol (lines vt ! nat (cursorY vt)) = map of_char ''abcdef''"
  proof -
    have "map Symbol (take 2 (lines vt ! nat (cursorY vt))) =
          take 2 (map Symbol (lines vt ! nat (cursorY vt)))"
      by (simp add: take_map)
    also have "\<dots> = take 2 (map of_char ''abcdef'')"
      by (simp only: that(4))
    also have "\<dots> = map of_char ''ab''"
      by simp
    finally show ?thesis using erase_to_end_of_line[OF that(1,2)] that(3) by simp
  qed
  show ?thesis
    using move_to_column_2[of vt] m0 erase_whole_line[of vt] by blast
qed

theorem erase_in_line_witness:
  "handleCSI \<lparr>lines = [ascii ''abcdef''], cursorX = 2, cursorY = 0, settings = 0, maxColumns = 80\<rparr>
     (CSI ''K'') 0 =
     Inr (\<lparr>lines = [ascii ''ab''], cursorX = 2, cursorY = 0, settings = 0, maxColumns = 80\<rparr>, 3, True)
   \<and> handleCSI \<lparr>lines = [ascii ''abcdef''], cursorX = 2, cursorY = 0, settings = 0, maxColumns = 80\<rparr>
     (CSI ''2K'') 0 =
     Inr (\<lparr>lines = [[]], cursorX = 2, cursorY = 0, settings = 0, maxColumns = 80\<rparr>, 4, True)"
  using erase_in_line
    [of "\<lparr>lines = [ascii ''abcdef''], cursorX = 2, cursorY = 0, settings = 0, maxColumns = 80\<rparr>"]
  by (simp add: ascii_def plain_def)

subsection \<open>Forward progress of the parse loop\<close>

text \<open>
  A control sequence is unterminated at \<open>start\<close> when everything after \<open>ESC [\<close> up to
  the end of the input is a digit or a semicolon (this includes the input that ends
  with \<open>ESC [\<close>).
\<close>

definition csi_unterminated :: "ColoredRune list \<Rightarrow> nat \<Rightarrow> bool" where
  "csi_unterminated parsed start =
     list_all (\<lambda>cr. (48 \<le> Symbol cr \<and> Symbol cr \<le> 57) \<or> Symbol cr = 59)
       (drop (start + 2) parsed)"

lemma scan_params_to_end:
  assumes "list_all (\<lambda>cr. (48 \<le> Symbol cr \<and> Symbol cr \<le> 57) \<or> Symbol cr = 59) (drop i parsed)"
    and "i \<le> length parsed"
  shows "fst (scan_params parsed i params buf) = length parsed"
  using assms
proof (induction parsed i params buf rule: scan_params.induct)
  case (1 parsed i params buf)
  show ?case
  proof (cases "i < length parsed")
    case False
    with "1.prems" show ?thesis by (subst scan_params.simps) simp
  next
    case True
    then have d: "drop i parsed = parsed ! i # drop (Suc i) parsed"
      by (simp add: Cons_nth_drop_Suc)
    with "1.prems" have
      h: "(48 \<le> Symbol (parsed ! i) \<and> Symbol (parsed ! i) \<le> 57) \<or> Symbol (parsed ! i) = 59"
      and t: "list_all (\<lambda>cr. (48 \<le> Symbol cr \<and> Symbol cr \<le> 57) \<or> Symbol cr = 59)
                (drop (i + 1) parsed)"
      by simp_all
    from True have le: "i + 1 \<le> length parsed" by simp
    show ?thesis
      apply (subst scan_params.simps)
      using True h "1.IH"(1)[OF True refl _ t le] "1.IH"(2)[OF True refl _ _ _ t le]
        "1.IH"(3)[OF True refl _ _ _ t le]
      by (auto simp: Let_def)
  qed
qed

lemma handleCSI_unterminated:
  assumes "csi_unterminated parsed start"
  shows "handleCSI vt parsed start = Inr (vt, 0, False)"
proof (cases "start + 2 \<ge> length parsed")
  case True
  then show ?thesis by (simp add: handleCSI_def)
next
  case False
  then have "fst (scan_params parsed (start + 2) [] []) = length parsed"
    using scan_params_to_end[of "start + 2" parsed "[]" "[]"] assms
    by (simp add: csi_unterminated_def)
  then show ?thesis
    by (cases "scan_params parsed (start + 2) [] []") (simp add: handleCSI_def)
qed

lemma parse_fuel_enough:
  "length parsed - i \<le> n \<Longrightarrow> parse_fuel n parsed vt i = Some (parse_loop parsed vt i)"
proof (induction n arbitrary: vt i)
  case 0
  then show ?case by (subst parse_loop.simps) simp
next
  case (Suc n)
  show ?case
  proof (cases "i < length parsed")
    case False
    then show ?thesis by (subst parse_loop.simps) simp
  next
    case True
    show ?thesis
    proof (cases "parse_step parsed vt i")
      case (Inl e)
      with True show ?thesis by (subst parse_loop.simps) simp
    next
      case (Inr r)
      obtain vt' i' where r: "r = (vt', i')" by (cases r)
      with Inr have "i < i'" using parse_step_progress by simp
      with Suc.prems have "length parsed - i' \<le> n" by arith
      from Suc.IH[OF this] Inr r True show ?thesis
        by (subst parse_loop.simps) simp
    qed
  qed
qed

text \<open>
  C4. The statements are about the loop of \<open>Parse\<close> on the sequence \<open>parsed\<close> that the
  decoder returned. The loop ends, with a terminal or a failure, after at most
  \<open>len(parsed)\<close> iterations, for every sequence and every terminal; the loops inside
  an iteration, which append rows and blanks, are recursive functions with
  termination proofs of their own. Every iteration that returns moves the index
  forward and not beyond the end. At \<open>ESC [\<close> whose control sequence is unterminated
  in \<open>parsed\<close>, the iteration changes nothing and moves the index by exactly one, to
  the \<open>[\<close>.
\<close>

theorem Parse_forward_progress:
  "parse_fuel (length parsed) parsed vt 0 = Some (parse_loop parsed vt 0)
   \<and> (\<forall>vt' i'. parse_step parsed vt i = Inr (vt', i') \<longrightarrow>
         i < i' \<and> (i < length parsed \<longrightarrow> i' \<le> length parsed))
   \<and> (i + 1 < length parsed \<and> Symbol (parsed ! i) = 27 \<and> Symbol (parsed ! (i + 1)) = 91
        \<and> csi_unterminated parsed i \<longrightarrow> parse_step parsed vt i = Inr (vt, i + 1))"
proof -
  have a: "parse_fuel (length parsed) parsed vt 0 = Some (parse_loop parsed vt 0)"
    by (rule parse_fuel_enough) simp
  have b: "\<forall>vt' i'. parse_step parsed vt i = Inr (vt', i') \<longrightarrow>
         i < i' \<and> (i < length parsed \<longrightarrow> i' \<le> length parsed)"
    using parse_step_progress parse_step_bound by blast
  have c: "parse_step parsed vt i = Inr (vt, i + 1)"
    if "i + 1 < length parsed" "Symbol (parsed ! i) = 27" "Symbol (parsed ! (i + 1)) = 91"
      "csi_unterminated parsed i"
    using that handleCSI_unterminated[OF that(4), of vt]
    by (simp add: parse_step_def)
  from a b c show ?thesis by blast
qed

theorem Parse_forward_progress_witness:
  "parse_step (ascii ''ab'' @ CSI ''12;3'') (NewVirtualTerminal 0) 2 = Inr (NewVirtualTerminal 0, 3)
   \<and> parse_fuel 8 (ascii ''ab'' @ CSI ''12;3'') (NewVirtualTerminal 0) 0
       = Some (parse_loop (ascii ''ab'' @ CSI ''12;3'') (NewVirtualTerminal 0) 0)"
proof -
  let ?p = "ascii ''ab'' @ CSI ''12;3''"
  have len: "length ?p = 8" by code_simp
  have h: "2 + 1 < length ?p \<and> Symbol (?p ! 2) = 27 \<and> Symbol (?p ! (2 + 1)) = 91
           \<and> csi_unterminated ?p 2"
    by code_simp
  from Parse_forward_progress[of ?p "NewVirtualTerminal 0" 2] h len
  show ?thesis by simp
qed

subsection \<open>The cursor invariant\<close>




lemma wrap64_id: "- (2 ^ 63) \<le> x \<Longrightarrow> x < 2 ^ 63 \<Longrightarrow> wrap64 x = x"
  by (simp add: wrap64_def)




lemma ensureLineExists_Inr:
  assumes "ensureLineExists vt y = Inr vt'"
  shows "vt' = vt\<lparr>lines := lines vt @ replicate (nat (y + 1 - int (length (lines vt)))) []\<rparr>"
    and "y < MaxInt64"
  using assms by (auto simp: ensureLineExists_def ensure_rows_eq split: if_splits)

lemma ensureLineExists_same:
  "y < MaxInt64 \<Longrightarrow> y < int (length (lines vt)) \<Longrightarrow> ensureLineExists vt y = Inr vt"
  by (simp add: ensureLineExists_def ensure_rows_eq)












subsection \<open>Input without control characters\<close>

text \<open>
  The rows that an input without control characters fills: a newline closes the
  current row \<open>cur\<close> and opens an empty one, any other character is added to it.
\<close>

fun split_rows :: "ColoredRune list \<Rightarrow> ColoredRune list \<Rightarrow> ColoredRune list list" where
  "split_rows cur [] = [cur]"
| "split_rows cur (c # cs) =
     (if Symbol c = 10 then cur # split_rows [] cs else split_rows (cur @ [c]) cs)"

text \<open>No escape, carriage return or backspace character.\<close>

definition no_control :: "ColoredRune list \<Rightarrow> bool" where
  "no_control xs = list_all (\<lambda>c. Symbol c \<noteq> 27 \<and> Symbol c \<noteq> 13 \<and> Symbol c \<noteq> 8) xs"

text \<open>The non-escape characters of the input, fed to the terminal one by one.\<close>

fun feed :: "VirtualTerminal \<Rightarrow> ColoredRune list \<Rightarrow> go_panic + VirtualTerminal" where
  "feed vt [] = Inr vt"
| "feed vt (c # cs) = (case put_rune vt c of Inl e \<Rightarrow> Inl e | Inr vt' \<Rightarrow> feed vt' cs)"

lemma parse_loop_feed:
  assumes "list_all (\<lambda>c. Symbol c \<noteq> 27) parsed"
  shows "parse_loop parsed vt i = feed vt (drop i parsed)"
proof (induction "length parsed - i" arbitrary: vt i)
  case 0
  then show ?case by (subst parse_loop.simps) simp
next
  case (Suc n)
  then have lt: "i < length parsed" by simp
  then have d: "drop i parsed = parsed ! i # drop (Suc i) parsed"
    by (simp add: Cons_nth_drop_Suc)
  from assms lt have ne: "Symbol (parsed ! i) \<noteq> 27"
    by (simp add: list_all_length)
  have st: "parse_step parsed vt i =
              (case put_rune vt (parsed ! i) of Inl e \<Rightarrow> Inl e | Inr vt' \<Rightarrow> Inr (vt', i + 1))"
    using ne by (simp add: parse_step_def)
  have n: "n = length parsed - Suc i" using Suc.hyps(2) by simp
  show ?case
    apply (subst parse_loop.simps)
    using lt Suc.hyps(1)[OF n]
    by (simp add: st d split: sum.splits)
qed

lemma split_rows_not_empty: "split_rows cur xs \<noteq> []"
  by (induction xs arbitrary: cur) auto

lemma split_rows_first:
  "list_all (\<lambda>row. int (length row) \<le> m) (split_rows cur xs) \<Longrightarrow> int (length cur) \<le> m"
proof (induction xs arbitrary: cur)
  case Nil
  then show ?case by simp
next
  case (Cons c cs)
  show ?case
  proof (cases "Symbol c = 10")
    case True
    with Cons.prems show ?thesis by simp
  next
    case False
    with Cons.prems have "list_all (\<lambda>row. int (length row) \<le> m) (split_rows (cur @ [c]) cs)"
      by simp
    from Cons.IH[OF this] show ?thesis by simp
  qed
qed

lemma length_split_rows: "length (split_rows cur xs) \<le> Suc (length xs)"
  by (induction xs arbitrary: cur) (auto simp: le_SucI)

lemma feed_rows:
  assumes "no_control xs"
    and "list_all (\<lambda>row. int (length row) \<le> maxColumns vt) (split_rows cur xs)"
    and "lines vt = pre @ [cur]"
    and "cursorY vt = int (length pre)" and "cursorX vt = int (length cur)"
    and "maxColumns vt \<le> MaxInt64"
    and "int (length pre) + int (length xs) < MaxInt64"
  shows "\<exists>vt'. feed vt xs = Inr vt' \<and> lines vt' = pre @ split_rows cur xs"
  using assms
proof (induction xs arbitrary: vt pre cur)
  case Nil
  then show ?case by simp
next
  case (Cons c cs)
  from Cons.prems(1) have nc: "Symbol c \<noteq> 27" "Symbol c \<noteq> 13" "Symbol c \<noteq> 8"
    and ncs: "no_control cs"
    by (simp_all add: no_control_def)
  have wy: "wrap64 (cursorY vt + 1) = cursorY vt + 1"
    using Cons.prems(4,7) by (intro wrap64_id) (auto simp: MaxInt64_def)
  show ?case
  proof (cases "Symbol c = 10")
    case True
    let ?vt1 = "vt\<lparr>cursorY := cursorY vt + 1, cursorX := 0, lines := (pre @ [cur]) @ [[]]\<rparr>"
    have wy': "wrap64 (int (length pre) + 1) = int (length pre) + 1"
      using wy Cons.prems(4) by simp
    have p: "put_rune vt c = Inr ?vt1"
      using True Cons.prems(3,4,7)
      by (simp add: put_rune_def wy' Let_def ensureLineExists_def ensure_rows_eq)
    have l1: "lines ?vt1 = (pre @ [cur]) @ [[]]" by simp
    have fit: "list_all (\<lambda>row. int (length row) \<le> maxColumns ?vt1) (split_rows [] cs)"
      using Cons.prems(2) True by simp
    have "\<exists>vt'. feed ?vt1 cs = Inr vt' \<and> lines vt' = (pre @ [cur]) @ split_rows [] cs"
      using Cons.prems(4,6,7)
      by (intro Cons.IH[OF ncs fit l1]) simp_all
    then show ?thesis using p True by simp
  next
    case False
    from Cons.prems(2) False
    have fit: "list_all (\<lambda>row. int (length row) \<le> maxColumns vt) (split_rows (cur @ [c]) cs)"
      by simp
    from split_rows_first[OF fit] have room: "int (length cur) + 1 \<le> maxColumns vt" by simp
    have wx: "wrap64 (int (length cur) + 1) = int (length cur) + 1"
      using Cons.prems(6) room by (intro wrap64_id) (auto simp: MaxInt64_def)
    have e: "ensureLineExists vt (cursorY vt) = Inr vt"
      using Cons.prems(3,4,7) by (intro ensureLineExists_same) simp_all
    have xm: "\<not> MaxInt64 \<le> cursorX vt"
      using Cons.prems(5,6) room by simp
    let ?vt1 = "vt\<lparr>lines := pre @ [cur @ [c]], cursorX := int (length cur) + 1\<rparr>"
    have w: "write_rune vt c = Inr ?vt1"
      unfolding write_rune_def e Let_def
      using Cons.prems(3,4,5) room xm
      by (simp add: wx nth_append list_update_append pad_row_eq)
    then have p: "put_rune vt c = Inr ?vt1"
      using False nc by (simp add: put_rune_def)
    have "\<exists>vt'. feed ?vt1 cs = Inr vt' \<and> lines vt' = pre @ split_rows (cur @ [c]) cs"
      using Cons.prems(4,5,6,7) fit
      by (intro Cons.IH[OF ncs]) simp_all
    then show ?thesis using p False by simp
  qed
qed

text \<open>
  The joined rows read like the input: the same length, the same symbol at every
  position, and the same styled character wherever the input has no newline.
\<close>

definition same_but_breaks :: "ColoredRune list \<Rightarrow> ColoredRune list \<Rightarrow> bool" where
  "same_but_breaks ys xs =
     list_all2 (\<lambda>y x. Symbol y = Symbol x \<and> (Symbol x = 10 \<or> y = x)) ys xs"

lemma join_rows_Cons:
  "rest \<noteq> [] \<Longrightarrow> join_rows (line # rest) =
     line @ [newline (if line \<noteq> [] then Settings (last line) else 0)] @ join_rows rest"
  by (cases rest) simp_all

lemma join_split_rows:
  "list_all2 (\<lambda>y x. Symbol y = Symbol x \<and> (Symbol x = 10 \<or> y = x))
     (join_rows (split_rows cur xs)) (cur @ xs)"
proof (induction xs arbitrary: cur)
  case Nil
  show ?case by (simp add: list_all2_refl)
next
  case (Cons c cs)
  show ?case
  proof (cases "Symbol c = 10")
    case True
    have "list_all2 (\<lambda>y x. Symbol y = Symbol x \<and> (Symbol x = 10 \<or> y = x)) cur cur"
      by (simp add: list_all2_refl)
    moreover have "list_all2 (\<lambda>y x. Symbol y = Symbol x \<and> (Symbol x = 10 \<or> y = x))
        (newline (if cur \<noteq> [] then Settings (last cur) else 0) # join_rows (split_rows [] cs))
        (c # cs)"
      using Cons.IH[of "[]"] True by (simp add: newline_def)
    ultimately show ?thesis
      using True by (simp add: join_rows_Cons split_rows_not_empty list_all2_appendI)
  next
    case False
    with Cons.IH[of "cur @ [c]"] show ?thesis by simp
  qed
qed

text \<open>
  C3, amended. Let \<open>xs\<close> be the styled-character sequence that the decoder returns
  for the input. If \<open>xs\<close> has no escape, carriage-return or backspace character and
  its lines are no longer than the column limit of the terminal, \<open>Parse\<close> returns a
  sequence of the same length as \<open>xs\<close> with the same symbols in the same order; every
  character that is not a newline is returned as it was, and each newline is
  returned as a newline (with the style bits of the character before it on its row).
  The column limit and the length of \<open>xs\<close> are values of Go's \<open>int\<close>.
\<close>

theorem Parse_plain_text:
  assumes "readAll input = Some data" and "parseStream data = Decoded xs"
    and "no_control xs"
    and "list_all (\<lambda>row. int (length row) \<le> maxColumns (NewVirtualTerminal mc)) (split_rows [] xs)"
    and "mc \<le> MaxInt64" and "int (length xs) < MaxInt64"
  shows "Parse readAll parseStream (NewVirtualTerminal mc) input = Inr (join_rows (split_rows [] xs))
         \<and> same_but_breaks (join_rows (split_rows [] xs)) xs"
proof -
  let ?vt = "NewVirtualTerminal mc"
  have esc: "list_all (\<lambda>c. Symbol c \<noteq> 27) xs"
    using assms(3) by (simp add: no_control_def list_all_iff)
  have m: "maxColumns ?vt \<le> MaxInt64"
    using assms(5) by (simp add: NewVirtualTerminal_def MaxInt64_def)
  have "\<exists>vt'. feed ?vt xs = Inr vt' \<and> lines vt' = [] @ split_rows [] xs"
    using assms(6) m
    by (intro feed_rows[OF assms(3,4)]) (simp_all add: NewVirtualTerminal_def)
  then obtain vt' where f: "feed ?vt xs = Inr vt'" and l: "lines vt' = split_rows [] xs"
    by auto
  have "parse_loop xs ?vt 0 = Inr vt'"
    using parse_loop_feed[OF esc, of ?vt 0] f by simp
  then have "Parse readAll parseStream ?vt input = Inr (join_rows (split_rows [] xs))"
    by (simp add: Parse_def assms(1,2) toBuntString_def l)
  moreover have "same_but_breaks (join_rows (split_rows [] xs)) xs"
    using join_split_rows[of "[]" xs] by (simp add: same_but_breaks_def)
  ultimately show ?thesis by simp
qed

theorem Parse_plain_text_witness:
  "Parse Some Decoded (NewVirtualTerminal 5) (ascii (''hello'' @ [CHR 0x0A] @ ''world''))
     = Inr (ascii (''hello'' @ [CHR 0x0A] @ ''world''))
   \<and> same_but_breaks (ascii (''hello'' @ [CHR 0x0A] @ ''world''))
       (ascii (''hello'' @ [CHR 0x0A] @ ''world''))"
proof -
  let ?xs = "ascii (''hello'' @ [CHR 0x0A] @ ''world'')"
  have h1: "no_control ?xs" by code_simp
  have h2: "list_all (\<lambda>row. int (length row) \<le> maxColumns (NewVirtualTerminal 5)) (split_rows [] ?xs)"
    by code_simp
  have h3: "(5::int) \<le> MaxInt64" by (simp add: MaxInt64_def)
  have h4: "int (length ?xs) < MaxInt64" by (simp add: MaxInt64_def ascii_def plain_def)
  have j: "join_rows (split_rows [] ?xs) = ?xs" by code_simp
  have r: "Some ?xs = Some ?xs" and d: "Decoded ?xs = Decoded ?xs" by simp_all
  from Parse_plain_text[of Some ?xs ?xs Decoded ?xs 5, OF r d h1 h2 h3 h4]
  show ?thesis unfolding j .
qed

text \<open>
  C3 as stated reads "no control sequences" as: no escape character. It fails on two
  kinds of decoded sequence. A line longer than the column limit is not returned at
  all: with 5 columns the loop panics on \<open>hello world\<close>. And a carriage return or a
  backspace is not a control sequence, yet the character that the loop writes after
  it replaces the one before: when the decoder hands \<open>a CR b\<close> or \<open>a BS b\<close> to the
  loop, \<open>Parse\<close> returns \<open>b\<close>.
\<close>

definition no_control_sequences :: "ColoredRune list \<Rightarrow> bool" where
  "no_control_sequences xs = list_all (\<lambda>c. Symbol c \<noteq> 27) xs"

theorem Parse_plain_text_counterexample:
  "no_control_sequences (ascii ''hello world'')
   \<and> Parse Some Decoded (NewVirtualTerminal 5) (ascii ''hello world'') = Inl (Panicked IndexOutOfRange)
   \<and> no_control_sequences (ascii (''a'' @ [CHR 0x0D] @ ''b''))
   \<and> Parse Some Decoded (NewVirtualTerminal 0) (ascii (''a'' @ [CHR 0x0D] @ ''b'')) = Inr (ascii ''b'')
   \<and> \<not> same_but_breaks (ascii ''b'') (ascii (''a'' @ [CHR 0x0D] @ ''b''))
   \<and> no_control_sequences (ascii (''a'' @ [CHR 0x08] @ ''b''))
   \<and> Parse Some Decoded (NewVirtualTerminal 0) (ascii (''a'' @ [CHR 0x08] @ ''b'')) = Inr (ascii ''b'')
   \<and> \<not> same_but_breaks (ascii ''b'') (ascii (''a'' @ [CHR 0x08] @ ''b''))"
  by code_simp

section \<open>The compositor (package img)\<close>

text \<open>
  Go strings are byte sequences: \<open>string\<close> here is a list of 8-bit characters.
  \<open>utf8_encode\<close> is the encoding that \<open>strings.Builder.WriteRune\<close> and \<open>string(rune)\<close>
  produce: a rune that is negative, a surrogate or beyond U+10FFFF is written as
  U+FFFD.
\<close>

definition utf8_encode :: "int \<Rightarrow> string" where
  "utf8_encode r =
     (if r < 0 \<or> r > 0x10FFFF \<or> (0xD800 \<le> r \<and> r \<le> 0xDFFF) then
        [char_of (0xEF :: int), char_of (0xBF :: int), char_of (0xBD :: int)]
      else if r \<le> 0x7F then [char_of r]
      else if r \<le> 0x7FF then [char_of (0xC0 + r div 64), char_of (0x80 + r mod 64)]
      else if r \<le> 0xFFFF then
        [char_of (0xE0 + r div 4096), char_of (0x80 + r div 64 mod 64),
         char_of (0x80 + r mod 64)]
      else
        [char_of (0xF0 + r div 262144), char_of (0x80 + r div 4096 mod 64),
         char_of (0x80 + r div 64 mod 64), char_of (0x80 + r mod 64)])"

definition runes_to_string :: "ColoredRune list \<Rightarrow> string" where
  "runes_to_string crs = concat (map (\<lambda>cr. utf8_encode (Symbol cr)) crs)"

definition HasPrefix :: "string \<Rightarrow> string \<Rightarrow> bool" where
  "HasPrefix s pre = (take (length pre) s = pre)"

text \<open>
  \<open>len([]rune(s))\<close> for a well-formed UTF-8 string (as the literals of the source
  are): the bytes that are not continuation bytes.
\<close>

definition rune_count :: "string \<Rightarrow> nat" where
  "rune_count s = length (filter (\<lambda>c. \<not> (0x80 \<le> (of_char c :: nat) \<and> (of_char c :: nat) < 0xC0)) s)"

text \<open>
  The prompt indicators, as the UTF-8 bytes of the string literals of the source:
  U+279C, U+276F, \<open>$\<close>, \<open>#\<close>, U+03BB, U+2192 and \<open>%\<close>.
\<close>

definition promptIndicators :: "string list" where
  "promptIndicators =
     [[CHR 0xE2, CHR 0x9E, CHR 0x9C], [CHR 0xE2, CHR 0x9D, CHR 0xAF], ''$'', ''#'',
      [CHR 0xCE, CHR 0xBB], [CHR 0xE2, CHR 0x86, CHR 0x92], ''%'']"

text \<open>
  \<open>strings.TrimSpace(line) != ""\<close> holds when some rune of the line is not a Unicode
  white space; \<open>is_space_rune\<close> is the White_Space property \<open>unicode.IsSpace\<close> tests.
\<close>

definition is_space_rune :: "int \<Rightarrow> bool" where
  "is_space_rune r =
     ((9 \<le> r \<and> r \<le> 13) \<or> r = 32 \<or> r = 0x85 \<or> r = 0xA0 \<or> r = 0x1680
      \<or> (0x2000 \<le> r \<and> r \<le> 0x200A) \<or> r = 0x2028 \<or> r = 0x2029 \<or> r = 0x202F
      \<or> r = 0x205F \<or> r = 0x3000)"

text \<open>
  Of the fields of \<open>Scaffold\<close>, those that the accumulation of content reads or
  writes; the others (fonts, margins, shadow, decorations) only matter to drawing.
\<close>

record Scaffold =
  content :: "ColoredRune list"
  columns :: int
  currentTheme :: Theme
  customPrompt :: string
  syntaxHighlight :: bool
  noPromptDetect :: bool

definition SetColumns :: "Scaffold \<Rightarrow> int \<Rightarrow> Scaffold" where
  "SetColumns s c = s\<lparr>columns := c\<rparr>"

text \<open>
  \<open>GetFixedColumns\<close> falls back to the width that \<open>term.GetTerminalSize\<close> reports,
  a value of the environment: the parameter \<open>termWidth\<close>.
\<close>

definition GetFixedColumns :: "Scaffold \<Rightarrow> int \<Rightarrow> int" where
  "GetFixedColumns s termWidth = (if columns s \<noteq> 0 then columns s else termWidth)"

text \<open>
  \<open>theme.ParseColor\<close> reads the hexadecimal fields with \<open>fmt.Sscanf\<close>, a library
  function that is a parameter here: \<open>scan h n\<close> stands for \<open>Sscanf\<close> of \<open>h\<close> with \<open>n\<close>
  verbs \<open>%02x\<close>, the values read or \<open>None\<close> on an error.
\<close>

type_synonym hex_scan = "string \<Rightarrow> nat \<Rightarrow> 8 word list option"

type_synonym rgba = "8 word \<times> 8 word \<times> 8 word \<times> 8 word"

definition ParseColor :: "hex_scan \<Rightarrow> string \<Rightarrow> rgba option" where
  "ParseColor scan hex =
     (if hex = [] then None
      else
        let h = (if hd hex = CHR ''#'' then tl hex else hex) in
        if length h = 6 then
          (case scan h 3 of Some [r, g, b] \<Rightarrow> Some (r, g, b, 255) | _ \<Rightarrow> None)
        else if length h = 8 then
          (case scan h 4 of Some [r, g, b, a] \<Rightarrow> Some (r, g, b, a) | _ \<Rightarrow> None)
        else None)"

definition getFirstLine :: "ColoredRune list \<Rightarrow> string" where
  "getFirstLine parsed = runes_to_string (takeWhile (\<lambda>cr. Symbol cr \<noteq> 10) parsed)"

definition getLineAt :: "ColoredRune list \<Rightarrow> nat \<Rightarrow> string" where
  "getLineAt parsed start = runes_to_string (takeWhile (\<lambda>cr. Symbol cr \<noteq> 10) (drop start parsed))"

definition promptSettings :: "64 word" where
  "promptSettings = 1 OR push_bit 8 203 OR push_bit 16 166 OR push_bit 24 247"

definition commandSettings :: "hex_scan \<Rightarrow> Scaffold \<Rightarrow> 64 word" where
  "commandSettings scan s =
     (case (case ParseColor scan (Green (currentTheme s)) of
              None \<Rightarrow> (166, 227, 161, 255)
            | Some c \<Rightarrow> c) of
        (r, g, b, a) \<Rightarrow> 1 OR push_bit 8 (ucast r) OR push_bit 16 (ucast g) OR push_bit 24 (ucast b))"

text \<open>
  The loop that turns the byte range of the command word into a rune position:
  \<open>i\<close> runs over bytes, \<open>r\<close> is \<open>commandEndRune\<close>.
\<close>

function command_end_rune :: "ColoredRune list \<Rightarrow> nat \<Rightarrow> nat \<Rightarrow> nat \<Rightarrow> nat" where
  "command_end_rune line i commandEnd r =
     (if i < commandEnd \<and> r < length line then
        command_end_rune line (i + length (utf8_encode (Symbol (line ! r)))) commandEnd (r + 1)
      else r)"
  by pat_completeness auto
termination
  by (relation "measure (\<lambda>(line, i, commandEnd, r). length line - r)") auto

declare command_end_rune.simps [simp del]

text \<open>
  \<open>highlightCommandLine\<close>. The scans over the bytes of \<open>text\<close> and the copy loops are
  written with \<open>takeWhile\<close>, \<open>take\<close> and \<open>drop\<close>: \<open>promptEnd\<close> moves over the blanks
  after the indicator, \<open>commandEnd\<close> over the bytes up to the next blank or tab; the
  copy loops take the runes from \<open>runePos\<close> while their bound and \<open>len(line)\<close> allow.
\<close>

definition highlightCommandLine ::
  "hex_scan \<Rightarrow> Scaffold \<Rightarrow> ColoredRune list \<Rightarrow> ColoredRune list" where
  "highlightCommandLine scan s line =
     (let text = runes_to_string line in
      case find (HasPrefix text) promptIndicators of
        None \<Rightarrow> line
      | Some indicator \<Rightarrow>
          if length indicator = 0 then line
          else
            let promptCharCount = rune_count indicator;
                whitespaceStart = length indicator;
                promptEnd = whitespaceStart
                  + length (takeWhile (\<lambda>c. c = CHR '' '') (drop whitespaceStart text));
                commandStart = promptEnd;
                commandEnd = commandStart
                  + length (takeWhile (\<lambda>c. c \<noteq> CHR '' '' \<and> c \<noteq> CHR 0x09) (drop commandStart text));
                colouredPrompt = map (\<lambda>cr. \<lparr>Symbol = Symbol cr, Settings = promptSettings\<rparr>)
                  (take promptCharCount line);
                k = min (promptEnd - whitespaceStart) (length line - promptCharCount);
                blanks = take k (drop promptCharCount line);
                runePos = promptCharCount + k;
                commandEndRune = command_end_rune line commandStart commandEnd runePos;
                colouredCommand =
                  map (\<lambda>cr. \<lparr>Symbol = Symbol cr, Settings = commandSettings scan s\<rparr>)
                    (take (commandEndRune - runePos) (drop runePos line));
                runePos' = max runePos (min commandEndRune (length line))
            in colouredPrompt @ blanks @ colouredCommand @ drop runePos' line)"

text \<open>
  \<open>enhanceRawContent\<close>. \<open>firstLineEnd\<close> is the index of the first newline, and stays
  \<open>0\<close> when there is none.
\<close>

definition firstLineEnd :: "ColoredRune list \<Rightarrow> nat" where
  "firstLineEnd parsed =
     (if list_ex (\<lambda>cr. Symbol cr = 10) parsed
      then length (takeWhile (\<lambda>cr. Symbol cr \<noteq> 10) parsed) else 0)"

definition enhanceRawContent ::
  "hex_scan \<Rightarrow> Scaffold \<Rightarrow> ColoredRune list \<Rightarrow> ColoredRune list" where
  "enhanceRawContent scan s parsed =
     (if length parsed = 0 then parsed
      else if noPromptDetect s then parsed
      else if \<not> list_ex (HasPrefix (getFirstLine parsed)) promptIndicators then parsed
      else
        let e = firstLineEnd parsed in
        if e = 0 \<or> e \<ge> length parsed then parsed
        else
          let result = highlightCommandLine scan s (take e parsed) @ [newline 0];
              hasOutputAfter = (e + 1 < length parsed)
          in
            if hasOutputAfter then
              (let nextLine = takeWhile (\<lambda>cr. Symbol cr \<noteq> 10) (drop (e + 1) parsed);
                   isNextPrompt = list_ex (HasPrefix (getLineAt parsed (e + 1))) promptIndicators;
                   result' = (if \<not> isNextPrompt \<and> \<not> list_all (\<lambda>cr. is_space_rune (Symbol cr)) nextLine
                              then result @ [newline 0] else result)
               in result' @ drop (e + 1) parsed)
            else result)"

text \<open>
  The wrap loop of \<open>AddContent\<close>: \<open>counter\<close> counts the characters since the last
  break; when it exceeds the column count a newline with the style bits of the
  current character is put in front of it.
\<close>

fun wrap_loop :: "int \<Rightarrow> int \<Rightarrow> ColoredRune list \<Rightarrow> ColoredRune list" where
  "wrap_loop cols counter [] = []"
| "wrap_loop cols counter (cr # rest) =
     (let c = (if Symbol cr = 10 then 0 else counter + 1) in
      if c > cols then newline (Settings cr) # cr # wrap_loop cols 0 rest
      else cr # wrap_loop cols c rest)"

definition AddContent :: "hex_scan \<Rightarrow> int \<Rightarrow> Scaffold \<Rightarrow> ColoredRune list \<Rightarrow> Scaffold" where
  "AddContent scan termWidth s parsed =
     s\<lparr>content := content s
          @ wrap_loop (GetFixedColumns s termWidth) 0 (enhanceRawContent scan s parsed)\<rparr>"

text \<open>
  \<open>WriteRaw\<close> writes \<open>s.content.String()\<close>, bunt's rendering of the content buffer;
  the model returns the buffer that is rendered.
\<close>

definition WriteRaw :: "Scaffold \<Rightarrow> ColoredRune list" where
  "WriteRaw s = content s"

text \<open>
  The raw-write branch of the command (package cmd). \<open>Scaffold.GetColumns\<close> is not
  among the methods of \<open>Scaffold\<close> in the source: it is the parameter \<open>getColumns\<close>.
\<close>

definition raw_write ::
  "hex_scan \<Rightarrow> int \<Rightarrow> (Scaffold \<Rightarrow> int) \<Rightarrow> Scaffold \<Rightarrow> ColoredRune list \<Rightarrow> ColoredRune list" where
  "raw_write scan termWidth getColumns scaffold buf =
     (let originalColumns = getColumns scaffold;
          s1 = SetColumns scaffold 0;
          s2 = AddContent scan termWidth s1 buf;
          s3 = SetColumns s2 originalColumns
      in WriteRaw s3)"

text \<open>A scaffold as \<open>NewImageCreator\<close> makes it, after \<open>SetColumns\<close>.\<close>

definition new_scaffold :: "int \<Rightarrow> Scaffold" where
  "new_scaffold cols =
     \<lparr>content = [], columns = cols, currentTheme = GetTheme ''default'',
      customPrompt = [], syntaxHighlight = False, noPromptDetect = False\<rparr>"

section \<open>Properties of the compositor\<close>

definition recolor :: "64 word \<Rightarrow> ColoredRune list \<Rightarrow> ColoredRune list" where
  "recolor st crs = map (\<lambda>cr. \<lparr>Symbol = Symbol cr, Settings = st\<rparr>) crs"

text \<open>The line feed as a byte of a Go string.\<close>

definition LF :: char where
  "LF = CHR 0x0A"

subsection \<open>Prompt detection\<close>

lemma promptIndicators_utf8:
  "promptIndicators = map utf8_encode [0x279C, 0x276F, 0x24, 0x23, 0x3BB, 0x2192, 0x25]"
  by code_simp

lemma takeWhile_line:
  assumes "list_all (\<lambda>cr. Symbol cr \<noteq> 10) L" and "Symbol c = 10"
  shows "takeWhile (\<lambda>cr. Symbol cr \<noteq> 10) (L @ c # T) = L"
  using assms by (induction L) auto

lemma firstLineEnd_line:
  assumes "list_all (\<lambda>cr. Symbol cr \<noteq> 10) L" and "Symbol c = 10"
  shows "firstLineEnd (L @ c # T) = length L"
  using assms by (simp add: firstLineEnd_def takeWhile_line list_ex_iff)

text \<open>
  When the first line \<open>L\<close> starts with a prompt indicator and is ended by a newline,
  the result is the highlighted line, a newline, one more newline unless the
  remainder is empty or its first line is blank or starts with a prompt indicator,
  and then the remainder as it was.
\<close>

lemma enhance_prompt_line:
  assumes "\<not> noPromptDetect s" and "L \<noteq> []"
    and "list_all (\<lambda>cr. Symbol cr \<noteq> 10) L" and "Symbol c = 10"
    and "list_ex (HasPrefix (runes_to_string L)) promptIndicators"
  shows "enhanceRawContent scan s (L @ c # T) =
     highlightCommandLine scan s L @ [newline 0]
     @ (if T \<noteq> []
           \<and> \<not> list_ex (HasPrefix (runes_to_string (takeWhile (\<lambda>cr. Symbol cr \<noteq> 10) T)))
                 promptIndicators
           \<and> \<not> list_all (\<lambda>cr. is_space_rune (Symbol cr)) (takeWhile (\<lambda>cr. Symbol cr \<noteq> 10) T)
        then [newline 0] else [])
     @ T"
  using assms
  by (simp add: enhanceRawContent_def getFirstLine_def getLineAt_def takeWhile_line
      firstLineEnd_line Let_def)

lemma highlight_ls_la:
  "highlightCommandLine scan s (plain [0x276F] @ ascii '' ls -la'') =
     recolor promptSettings (plain [0x276F]) @ ascii '' ''
     @ recolor (commandSettings scan s) (ascii ''ls'') @ ascii '' -la''"
  by code_simp

lemma highlight_ls:
  "highlightCommandLine scan s (plain [0x276F] @ ascii '' ls'') =
     recolor promptSettings (plain [0x276F]) @ ascii '' ''
     @ recolor (commandSettings scan s) (ascii ''ls'')"
  by code_simp

lemma prompt_lines:
  "plain [0x276F] @ ascii '' ls -la'' \<noteq> []"
  "list_all (\<lambda>cr. Symbol cr \<noteq> 10) (plain [0x276F] @ ascii '' ls -la'')"
  "list_ex (HasPrefix (runes_to_string (plain [0x276F] @ ascii '' ls -la''))) promptIndicators"
  "plain [0x276F] @ ascii '' ls'' \<noteq> []"
  "list_all (\<lambda>cr. Symbol cr \<noteq> 10) (plain [0x276F] @ ascii '' ls'')"
  "list_ex (HasPrefix (runes_to_string (plain [0x276F] @ ascii '' ls''))) promptIndicators"
  by code_simp+

lemma next_lines:
  "list_all (\<lambda>cr. Symbol cr \<noteq> 10) (ascii ''file1'')"
  "\<not> list_ex (HasPrefix (runes_to_string (ascii ''file1''))) promptIndicators"
  "\<not> list_all (\<lambda>cr. is_space_rune (Symbol cr)) (ascii ''file1'')"
  "list_all (\<lambda>cr. Symbol cr \<noteq> 10) (plain [0x276F] @ ascii '' pwd'')"
  "list_ex (HasPrefix (runes_to_string (plain [0x276F] @ ascii '' pwd''))) promptIndicators"
  "Symbol (newline 0) = 10"
  "ascii [LF] = [newline 0]"
  by code_simp+

lemma ascii_append: "ascii (a @ b) = ascii a @ ascii b"
  by (simp add: ascii_def plain_def)

lemma enhance_ls_la:
  assumes "\<not> noPromptDetect s"
  shows "enhanceRawContent scan s
           (plain [0x276F] @ ascii ('' ls -la'' @ [LF] @ ''file1'' @ [LF] @ ''file2'') @ rest) =
         recolor promptSettings (plain [0x276F]) @ ascii '' ''
         @ recolor (commandSettings scan s) (ascii ''ls'') @ ascii '' -la''
         @ [newline 0] @ [newline 0] @ ascii (''file1'' @ [LF] @ ''file2'') @ rest"
proof -
  let ?L = "plain [0x276F] @ ascii '' ls -la''"
  let ?T = "ascii ''file1'' @ newline 0 # (ascii ''file2'' @ rest)"
  have input: "plain [0x276F] @ ascii ('' ls -la'' @ [LF] @ ''file1'' @ [LF] @ ''file2'') @ rest
               = ?L @ newline 0 # ?T"
    unfolding ascii_append next_lines(7) by simp
  have nl: "takeWhile (\<lambda>cr. Symbol cr \<noteq> 10) ?T = ascii ''file1''"
    by (rule takeWhile_line[OF next_lines(1) next_lines(6)])
  have ne: "?T \<noteq> []" by simp
  have "enhanceRawContent scan s (?L @ newline 0 # ?T) =
          highlightCommandLine scan s ?L @ [newline 0] @ [newline 0] @ ?T"
    unfolding enhance_prompt_line[OF assms prompt_lines(1,2) next_lines(6) prompt_lines(3)] nl
    using next_lines(2,3) ne by simp
  then show ?thesis
    unfolding input highlight_ls_la unfolding ascii_append next_lines(7) by simp
qed

lemma enhance_ls_pwd:
  assumes "\<not> noPromptDetect s"
  shows "enhanceRawContent scan s
           (plain [0x276F] @ ascii ('' ls'' @ [LF]) @ plain [0x276F] @ ascii ('' pwd'' @ [LF]) @ rest) =
         recolor promptSettings (plain [0x276F]) @ ascii '' ''
         @ recolor (commandSettings scan s) (ascii ''ls'')
         @ [newline 0] @ plain [0x276F] @ ascii ('' pwd'' @ [LF]) @ rest"
proof -
  let ?L = "plain [0x276F] @ ascii '' ls''"
  let ?N = "plain [0x276F] @ ascii '' pwd''"
  let ?T = "?N @ newline 0 # rest"
  have input: "plain [0x276F] @ ascii ('' ls'' @ [LF]) @ plain [0x276F] @ ascii ('' pwd'' @ [LF]) @ rest
               = ?L @ newline 0 # ?T"
    unfolding ascii_append next_lines(7) by simp
  have nl: "takeWhile (\<lambda>cr. Symbol cr \<noteq> 10) ?T = ?N"
    by (rule takeWhile_line[OF next_lines(4) next_lines(6)])
  have "enhanceRawContent scan s (?L @ newline 0 # ?T) =
          highlightCommandLine scan s ?L @ [newline 0] @ ?T"
    unfolding enhance_prompt_line[OF assms prompt_lines(4,5) next_lines(6) prompt_lines(6)] nl
    using next_lines(5) by simp
  then show ?thesis
    unfolding input highlight_ls unfolding ascii_append next_lines(7) by simp
qed

text \<open>
  The style bits of the two colours: bit 0 says that a foreground colour is set, and
  the bytes above it hold red, green and blue. \<open>0xF7A6CB01\<close> is the foreground
  \<open>rgb(203, 166, 247)\<close> of the prompt glyph, \<open>0x79C39801\<close> the foreground
  \<open>rgb(0x98, 0xC3, 0x79)\<close>, which is the green \<open>#98C379\<close> of the default theme.
\<close>

lemma prompt_colour: "promptSettings = 0xF7A6CB01"
  by code_simp

lemma command_colour:
  assumes "Green (currentTheme s) = ''#98C379''"
    and "scan ''98C379'' 3 = Some [0x98, 0xC3, 0x79]"
  shows "commandSettings scan s = 0x79C39801"
proof -
  have p: "ParseColor scan ''#98C379'' = Some (0x98, 0xC3, 0x79, 255)"
    by (simp add: ParseColor_def assms(2))
  have w: "(1 :: 64 word) OR push_bit 8 (ucast (0x98 :: 8 word)) OR push_bit 16 (ucast (0xC3 :: 8 word))
             OR push_bit 24 (ucast (0x79 :: 8 word)) = 0x79C39801"
    by code_simp
  show ?thesis
    unfolding commandSettings_def assms(1) p using w by simp
qed

text \<open>The scan of the green of the default theme, as \<open>Sscanf\<close> reads it.\<close>

definition scan_default_green :: hex_scan where
  "scan_default_green h n =
     (if h = ''98C379'' \<and> n = 3 then Some [0x98, 0xC3, 0x79] else None)"

text \<open>
  C7. With prompt detection enabled and the green \<open>#98C379\<close> of the default theme,
  content that starts with the prompt glyph U+276F and \<open> ls -la\<close>, a newline, \<open>file1\<close>,
  a newline and \<open>file2\<close> becomes: the first line highlighted, that is the glyph with
  the foreground \<open>rgb(203, 166, 247)\<close>, the blank as it was, the word \<open>ls\<close> with the
  foreground \<open>rgb(0x98, 0xC3, 0x79)\<close> and \<open> -la\<close> as it was; then its newline, one
  inserted newline (a blank line), and \<open>file1\<close>, newline, \<open>file2\<close> and whatever
  follows unchanged. Content that starts with two prompt lines (\<open>ls\<close>, then \<open>pwd\<close>)
  becomes: the first line highlighted in the same way, its newline, and the second
  prompt line and whatever follows unchanged, with no newline inserted.
\<close>

theorem prompt_detection:
  assumes "\<not> noPromptDetect s"
    and "Green (currentTheme s) = ''#98C379''"
    and "scan ''98C379'' 3 = Some [0x98, 0xC3, 0x79]"
  shows "enhanceRawContent scan s
           (plain [0x276F] @ ascii ('' ls -la'' @ [LF] @ ''file1'' @ [LF] @ ''file2'') @ rest) =
         ([\<lparr>Symbol = 0x276F, Settings = 0xF7A6CB01\<rparr>, \<lparr>Symbol = 0x20, Settings = 0\<rparr>,
           \<lparr>Symbol = 0x6C, Settings = 0x79C39801\<rparr>, \<lparr>Symbol = 0x73, Settings = 0x79C39801\<rparr>]
          @ ascii '' -la'')
         @ [newline 0] @ [newline 0] @ ascii (''file1'' @ [LF] @ ''file2'') @ rest
       \<and> enhanceRawContent scan s
           (plain [0x276F] @ ascii ('' ls'' @ [LF]) @ plain [0x276F] @ ascii ('' pwd'' @ [LF]) @ rest) =
         [\<lparr>Symbol = 0x276F, Settings = 0xF7A6CB01\<rparr>, \<lparr>Symbol = 0x20, Settings = 0\<rparr>,
          \<lparr>Symbol = 0x6C, Settings = 0x79C39801\<rparr>, \<lparr>Symbol = 0x73, Settings = 0x79C39801\<rparr>]
         @ [newline 0] @ plain [0x276F] @ ascii ('' pwd'' @ [LF]) @ rest"
proof -
  have hl: "recolor 0xF7A6CB01 (plain [0x276F]) @ ascii '' '' @ recolor 0x79C39801 (ascii ''ls'')
            = [\<lparr>Symbol = 0x276F, Settings = 0xF7A6CB01\<rparr>, \<lparr>Symbol = 0x20, Settings = 0\<rparr>,
               \<lparr>Symbol = 0x6C, Settings = 0x79C39801\<rparr>, \<lparr>Symbol = 0x73, Settings = 0x79C39801\<rparr>]"
    by code_simp
  have a: "enhanceRawContent scan s
           (plain [0x276F] @ ascii ('' ls -la'' @ [LF] @ ''file1'' @ [LF] @ ''file2'') @ rest) =
         (recolor 0xF7A6CB01 (plain [0x276F]) @ ascii '' '' @ recolor 0x79C39801 (ascii ''ls''))
         @ ascii '' -la''
         @ [newline 0] @ [newline 0] @ ascii (''file1'' @ [LF] @ ''file2'') @ rest"
    unfolding enhance_ls_la[OF assms(1), of scan rest] prompt_colour command_colour[where s = s and scan = scan, OF assms(2,3)]
    by simp
  have b: "enhanceRawContent scan s
           (plain [0x276F] @ ascii ('' ls'' @ [LF]) @ plain [0x276F] @ ascii ('' pwd'' @ [LF]) @ rest) =
         (recolor 0xF7A6CB01 (plain [0x276F]) @ ascii '' '' @ recolor 0x79C39801 (ascii ''ls''))
         @ [newline 0] @ plain [0x276F] @ ascii ('' pwd'' @ [LF]) @ rest"
    unfolding enhance_ls_pwd[OF assms(1), of scan rest] prompt_colour command_colour[where s = s and scan = scan, OF assms(2,3)]
    by simp
  from a b show ?thesis unfolding hl by simp
qed

theorem prompt_detection_witness:
  "enhanceRawContent scan_default_green (new_scaffold 0)
     (plain [0x276F] @ ascii ('' ls -la'' @ [LF] @ ''file1'' @ [LF] @ ''file2'')) =
   [\<lparr>Symbol = 0x276F, Settings = 0xF7A6CB01\<rparr>, \<lparr>Symbol = 0x20, Settings = 0\<rparr>,
    \<lparr>Symbol = 0x6C, Settings = 0x79C39801\<rparr>, \<lparr>Symbol = 0x73, Settings = 0x79C39801\<rparr>]
   @ ascii '' -la'' @ [newline 0] @ [newline 0] @ ascii (''file1'' @ [LF] @ ''file2'')
   \<and> enhanceRawContent scan_default_green (new_scaffold 0)
     (plain [0x276F] @ ascii ('' ls'' @ [LF]) @ plain [0x276F] @ ascii ('' pwd'' @ [LF])) =
   [\<lparr>Symbol = 0x276F, Settings = 0xF7A6CB01\<rparr>, \<lparr>Symbol = 0x20, Settings = 0\<rparr>,
    \<lparr>Symbol = 0x6C, Settings = 0x79C39801\<rparr>, \<lparr>Symbol = 0x73, Settings = 0x79C39801\<rparr>]
   @ [newline 0] @ plain [0x276F] @ ascii ('' pwd'' @ [LF])"
proof -
  have h1: "\<not> noPromptDetect (new_scaffold 0)" by (simp add: new_scaffold_def)
  have h2: "Green (currentTheme (new_scaffold 0)) = ''#98C379''" by code_simp
  have h3: "scan_default_green ''98C379'' 3 = Some [0x98, 0xC3, 0x79]"
    by (simp add: scan_default_green_def)
  show ?thesis
    using prompt_detection[where s = "new_scaffold 0" and scan = scan_default_green and rest = "[]",
        OF h1 h2 h3]
    by simp
qed

subsection \<open>Wrapping in the compositor and in raw-write mode\<close>

lemma raw_write_wide_terminal:
  assumes "5 \<le> termWidth"
  shows "raw_write scan termWidth getColumns (new_scaffold 3) (ascii (''hello'' @ [LF] @ ''world''))
         = ascii (''hello'' @ [LF] @ ''world'')"
proof -
  have e: "enhanceRawContent scan (SetColumns (new_scaffold 3) 0) (ascii (''hello'' @ [LF] @ ''world''))
           = ascii (''hello'' @ [LF] @ ''world'')"
    by code_simp
  have c: "GetFixedColumns (SetColumns (new_scaffold 3) 0) termWidth = termWidth"
    by (simp add: GetFixedColumns_def SetColumns_def new_scaffold_def)
  have w: "wrap_loop termWidth 0 (ascii (''hello'' @ [LF] @ ''world'')) = ascii (''hello'' @ [LF] @ ''world'')"
    using assms by (simp add: ascii_def plain_def LF_def newline_def)
  show ?thesis
    unfolding raw_write_def Let_def AddContent_def WriteRaw_def e c w
    by (simp add: SetColumns_def new_scaffold_def)
qed

text \<open>
  In the raw-write branch a line that is one character longer than the terminal is
  wide gets a break before its last character, whatever the width is.
\<close>

lemma no_prompt_unchanged:
  assumes "\<not> list_ex (HasPrefix (getFirstLine parsed)) promptIndicators"
  shows "enhanceRawContent scan s parsed = parsed"
  using assms by (simp add: enhanceRawContent_def)

lemma letter_a_no_prompt:
  "\<not> list_ex (HasPrefix (getFirstLine (ascii (CHR ''a'' # w)))) promptIndicators"
proof -
  have "utf8_encode 97 = ''a''" by code_simp
  then have "getFirstLine (ascii (CHR ''a'' # w)) = CHR ''a'' # getFirstLine (ascii w)"
    by (simp add: getFirstLine_def ascii_def plain_def runes_to_string_def)
  then show ?thesis
    by (simp add: promptIndicators_def HasPrefix_def)
qed

lemma raw_write_wraps_long_line:
  "raw_write scan (int (Suc n)) getColumns (new_scaffold 3)
     (ascii (replicate (Suc (Suc n)) CHR ''a''))
   = ascii (replicate (Suc n) CHR ''a'') @ [newline 0] @ ascii ''a''"
proof -
  let ?s = "SetColumns (new_scaffold 3) 0"
  let ?run = "\<lambda>k. ascii (replicate k CHR ''a'')"
  have e: "enhanceRawContent scan ?s (?run (Suc (Suc n))) = ?run (Suc (Suc n))"
    using letter_a_no_prompt[of "replicate (Suc n) CHR ''a''"]
    by (intro no_prompt_unchanged) simp
  have c: "GetFixedColumns ?s (int (Suc n)) = int (Suc n)"
    by (simp add: GetFixedColumns_def SetColumns_def new_scaffold_def)
  have sp: "?run (Suc (Suc n)) = ?run (Suc n) @ ascii ''a''"
    by (simp add: ascii_def plain_def replicate_append_same)
  have w: "wrap_loop cols counter (?run k @ ascii ''a'') = ?run k @ [newline 0] @ ascii ''a''"
    if "counter + int k = cols" for cols counter k
    using that
  proof (induction k arbitrary: counter)
    case 0
    then show ?case by (simp add: ascii_def plain_def newline_def)
  next
    case (Suc k)
    have "wrap_loop cols (counter + 1) (?run k @ ascii ''a'') = ?run k @ [newline 0] @ ascii ''a''"
      using Suc.prems by (intro Suc.IH) simp
    then show ?case using Suc.prems by (simp add: ascii_def plain_def)
  qed
  have e': "enhanceRawContent scan ?s (?run (Suc (Suc n))) = ?run (Suc n) @ ascii ''a''"
    using e sp by simp
  have main: "wrap_loop (int (Suc n)) 0 (?run (Suc n) @ ascii ''a'')
              = ?run (Suc n) @ [newline 0] @ ascii ''a''"
    by (rule w) simp
  show ?thesis
    unfolding raw_write_def Let_def AddContent_def WriteRaw_def e' c main
    by (simp add: SetColumns_def new_scaffold_def)
qed

text \<open>
  C5. In the raw-write branch the column count is set to \<open>0\<close> before the content is
  added, and \<open>AddContent\<close> then wraps at the terminal width that \<open>GetFixedColumns\<close>
  falls back to. With \<open>columns = 3\<close> configured and a terminal three columns wide, the
  unstyled input \<open>hello\<close>, newline, \<open>world\<close> is emitted with three breaks added.
\<close>

theorem raw_write_still_wraps:
  "raw_write scan 3 getColumns (new_scaffold 3) (ascii (''hello'' @ [LF] @ ''world''))
   = ascii (''hel'' @ [LF] @ ''lo'' @ [LF] @ ''wor'' @ [LF] @ ''ld'')"
  by code_simp

text \<open>
  C1. On a run of twelve characters with \<open>maxColumns = 5\<close>, the loop of \<open>Parse\<close> stops
  with an index-out-of-range panic at the sixth character: the row is padded before
  the wrap is tested, and the character is then stored into the new, empty row; so
  \<open>Parse\<close> panics when the decoder hands it that run. With \<open>columns = 5\<close> the wrap loop
  of \<open>AddContent\<close> yields lines of five, six and one characters: the counter restarts
  at \<open>0\<close>, not \<open>1\<close>, after an inserted break.
\<close>

theorem wrap_twelve_characters:
  "parse_loop (ascii ''abcdefghijkl'') (NewVirtualTerminal 5) 0 = Inl IndexOutOfRange
   \<and> Parse Some Decoded (NewVirtualTerminal 5) (ascii ''abcdefghijkl'')
       = Inl (Panicked IndexOutOfRange)
   \<and> content (AddContent scan termWidth (new_scaffold 5) (ascii ''abcdefghijkl''))
     = ascii (''abcde'' @ [LF] @ ''fghijk'' @ [LF] @ ''l'')"
  by code_simp

section \<open>The lexical highlighter (package highlight)\<close>

datatype TokenType =
  TokenCommand | TokenKeyword | TokenFlag | TokenString | TokenVariable
  | TokenOperator | TokenComment | TokenNumber | TokenPath | TokenDefault

record Token =
  Type :: TokenType
  Value :: string

definition shellKeywords :: "string list" where
  "shellKeywords =
     [''if'', ''then'', ''else'', ''elif'', ''fi'',
      ''case'', ''esac'', ''for'', ''while'', ''until'',
      ''do'', ''done'', ''in'', ''function'', ''select'',
      ''time'', ''coproc'', ''return'', ''break'', ''continue'',
      ''export'', ''local'', ''readonly'', ''declare'', ''typeset'',
      ''alias'', ''unalias'', ''set'', ''unset'', ''shift'',
      ''source'', ''exec'', ''eval'', ''test'', ''cd'',
      ''echo'', ''printf'', ''read'', ''exit'', ''true'', ''false'']"

record Lexer =
  input :: string
  pos :: nat
  tokens :: "Token list"

definition NewLexer :: "string \<Rightarrow> Lexer" where
  "NewLexer inp = \<lparr>input = inp, pos = 0, tokens = []\<rparr>"

text \<open>
  The lexer reads bytes and classifies \<open>rune(ch)\<close>, the code point with the value of
  the byte. On the code points below 256, \<open>unicode.IsSpace\<close> holds for tab, the line
  and page breaks, the blank, U+0085 and U+00A0; \<open>unicode.IsLetter\<close> for the ASCII
  letters, U+00AA, U+00B5, U+00BA and U+00C0 to U+00FF without U+00D7 and U+00F7;
  \<open>unicode.IsDigit\<close> for the ASCII digits.
\<close>

definition byte_IsSpace :: "char \<Rightarrow> bool" where
  "byte_IsSpace ch =
     (let r = (of_char ch :: nat) in (9 \<le> r \<and> r \<le> 13) \<or> r = 32 \<or> r = 0x85 \<or> r = 0xA0)"

definition byte_IsLetter :: "char \<Rightarrow> bool" where
  "byte_IsLetter ch =
     (let r = (of_char ch :: nat) in
      (0x41 \<le> r \<and> r \<le> 0x5A) \<or> (0x61 \<le> r \<and> r \<le> 0x7A)
      \<or> r = 0xAA \<or> r = 0xB5 \<or> r = 0xBA
      \<or> (0xC0 \<le> r \<and> r \<le> 0xD6) \<or> (0xD8 \<le> r \<and> r \<le> 0xF6) \<or> 0xF8 \<le> r)"

definition byte_IsDigit :: "char \<Rightarrow> bool" where
  "byte_IsDigit ch = (let r = (of_char ch :: nat) in 0x30 \<le> r \<and> r \<le> 0x39)"

text \<open>
  \<open>string(ch)\<close> for a byte \<open>ch\<close>: the conversion of an integer to a string, which is
  the UTF-8 encoding of the code point with that value.
\<close>

definition byte_to_string :: "char \<Rightarrow> string" where
  "byte_to_string ch = utf8_encode (of_char ch)"

text \<open>The slice \<open>s[a:b]\<close>.\<close>

definition slice :: "string \<Rightarrow> nat \<Rightarrow> nat \<Rightarrow> string" where
  "slice s a b = take (b - a) (drop a s)"

definition addToken :: "Lexer \<Rightarrow> TokenType \<Rightarrow> string \<Rightarrow> Lexer" where
  "addToken l ty v = l\<lparr>tokens := tokens l @ [\<lparr>Type = ty, Value = v\<rparr>]\<rparr>"

text \<open>
  The scanning loops \<open>for l.pos < len(l.input) { ...; l.pos++ }\<close> that stop at the
  first byte failing a test: the position where the loop started at \<open>p\<close> ends.
\<close>

function scan_while :: "(char \<Rightarrow> bool) \<Rightarrow> string \<Rightarrow> nat \<Rightarrow> nat" where
  "scan_while P inp p = (if p < length inp \<and> P (inp ! p) then scan_while P inp (p + 1) else p)"
  by pat_completeness auto
termination
  by (relation "measure (\<lambda>(P, inp, p). length inp - p)") auto

declare scan_while.simps [simp del]

definition tokenizeWord :: "Lexer \<Rightarrow> Lexer \<times> string" where
  "tokenizeWord l =
     (let start = pos l;
          p = scan_while (\<lambda>ch. \<not> (byte_IsSpace ch \<or> ch \<in> set ''|&;<>()[]{}\"'`$#'')) (input l) (pos l);
          word = slice (input l) start p
      in (addToken (l\<lparr>pos := p\<rparr>) TokenDefault word, word))"

text \<open>The loop of \<open>tokenizeString\<close>, from the position after the opening quote.\<close>

function string_end :: "char \<Rightarrow> string \<Rightarrow> nat \<Rightarrow> nat" where
  "string_end quote inp p =
     (if p < length inp then
        (if inp ! p = quote then p + 1
         else if inp ! p = CHR 0x5C \<and> p + 1 < length inp then string_end quote inp (p + 2)
         else string_end quote inp (p + 1))
      else p)"
  by pat_completeness auto
termination
  by (relation "measure (\<lambda>(quote, inp, p). length inp - p)") auto

declare string_end.simps [simp del]

definition tokenizeString :: "Lexer \<Rightarrow> char \<Rightarrow> Lexer" where
  "tokenizeString l quote =
     (let start = pos l;
          p = string_end quote (input l) (pos l + 1)
      in addToken (l\<lparr>pos := p\<rparr>) TokenString (slice (input l) start p))"

definition tokenizeVariable :: "Lexer \<Rightarrow> Lexer" where
  "tokenizeVariable l =
     (let start = pos l;
          p1 = pos l + 1;
          p = (if p1 < length (input l) \<and> input l ! p1 = CHR ''{'' then
                 (let p2 = scan_while (\<lambda>ch. ch \<noteq> CHR ''}'') (input l) (p1 + 1) in
                  if p2 < length (input l) then p2 + 1 else p2)
               else
                 scan_while (\<lambda>ch. \<not> (\<not> byte_IsLetter ch \<and> \<not> byte_IsDigit ch \<and> ch \<noteq> CHR ''_''))
                   (input l) p1)
      in addToken (l\<lparr>pos := p\<rparr>) TokenVariable (slice (input l) start p))"

definition tokenizeFlag :: "Lexer \<Rightarrow> Lexer" where
  "tokenizeFlag l =
     (let start = pos l;
          p1 = pos l + 1;
          p2 = (if p1 < length (input l) \<and> input l ! p1 = CHR ''-'' then p1 + 1 else p1);
          p = scan_while (\<lambda>ch. \<not> (byte_IsSpace ch \<or> ch \<in> set ''|&;<>()[]{}\"'`$'')) (input l) p2
      in addToken (l\<lparr>pos := p\<rparr>) TokenFlag (slice (input l) start p))"

definition tokenizeOperator :: "Lexer \<Rightarrow> Lexer" where
  "tokenizeOperator l =
     (let start = pos l;
          ch = input l ! pos l;
          p1 = pos l + 1;
          p = (if p1 < length (input l) then
                 (let next = input l ! p1 in
                  if (ch = CHR ''|'' \<and> next = CHR ''|'') \<or> (ch = CHR ''&'' \<and> next = CHR ''&'')
                     \<or> (ch = CHR ''>'' \<and> next = CHR ''>'') \<or> (ch = CHR ''<'' \<and> next = CHR ''<'')
                     \<or> (ch = CHR ''>'' \<and> next = CHR ''&'') \<or> (ch = CHR ''<'' \<and> next = CHR ''&'')
                  then p1 + 1 else p1)
               else p1)
      in addToken (l\<lparr>pos := p\<rparr>) TokenOperator (slice (input l) start p))"

definition tokenizeComment :: "Lexer \<Rightarrow> Lexer" where
  "tokenizeComment l =
     (let start = pos l;
          p = scan_while (\<lambda>ch. ch \<noteq> CHR 0x0A) (input l) (pos l)
      in addToken (l\<lparr>pos := p\<rparr>) TokenComment (slice (input l) start p))"

definition isPath :: "string \<Rightarrow> bool" where
  "isPath word =
     (HasPrefix word ''/'' \<or> HasPrefix word ''./'' \<or> HasPrefix word ''../'' \<or> HasPrefix word ''~/'')"

text \<open>
  \<open>isNumber\<close> tests \<open>unicode.IsDigit\<close> on every rune of the word. For a word of ASCII
  bytes that is the test of its bytes. For a word with other bytes it depends on the
  Unicode table of decimal digits, a parameter here: \<open>nd word\<close> stands for "every
  rune of \<open>word\<close> is a decimal digit".
\<close>

definition isNumber :: "(string \<Rightarrow> bool) \<Rightarrow> string \<Rightarrow> bool" where
  "isNumber nd word =
     ((if list_all (\<lambda>ch. (of_char ch :: nat) < 0x80) word then list_all byte_IsDigit word
       else nd word)
      \<and> length word > 0)"

text \<open>\<open>l.tokens[len(l.tokens)-1].Type = ty\<close>, after a token has been added.\<close>

definition set_last_type :: "Lexer \<Rightarrow> TokenType \<Rightarrow> Lexer" where
  "set_last_type l ty =
     l\<lparr>tokens := butlast (tokens l) @ [(last (tokens l))\<lparr>Type := ty\<rparr>]\<rparr>"

definition classify_word :: "(string \<Rightarrow> bool) \<Rightarrow> Lexer \<Rightarrow> string \<Rightarrow> bool \<Rightarrow> Lexer" where
  "classify_word nd l word isFirstWord =
     (if isFirstWord then
        (if word \<in> set shellKeywords then set_last_type l TokenKeyword
         else set_last_type l TokenCommand)
      else if word \<in> set shellKeywords then set_last_type l TokenKeyword
      else if isPath word then set_last_type l TokenPath
      else if isNumber nd word then set_last_type l TokenNumber
      else l)"

subsection \<open>Every branch of the lexer loop advances\<close>

lemma scan_while_ge: "p \<le> scan_while P inp p"
proof (induction P inp p rule: scan_while.induct)
  case (1 P inp p)
  show ?case
    apply (subst scan_while.simps)
    using 1 by (auto intro: Suc_leD)
qed

lemma scan_while_le: "p \<le> length inp \<Longrightarrow> scan_while P inp p \<le> length inp"
proof (induction P inp p rule: scan_while.induct)
  case (1 P inp p)
  show ?case
    apply (subst scan_while.simps)
    using 1 by auto
qed

lemma scan_while_step: "p < length inp \<Longrightarrow> P (inp ! p) \<Longrightarrow> p < scan_while P inp p"
  using scan_while_ge[of "p + 1" P inp] by (subst scan_while.simps) simp

lemma string_end_ge: "p \<le> string_end q inp p"
proof (induction q inp p rule: string_end.induct)
  case (1 q inp p)
  show ?case
    apply (subst string_end.simps)
    using 1 by (auto intro: Suc_leD)
qed

lemma string_end_le: "p \<le> length inp \<Longrightarrow> string_end q inp p \<le> length inp"
proof (induction q inp p rule: string_end.induct)
  case (1 q inp p)
  show ?case
    apply (subst string_end.simps)
    using 1 by auto
qed

lemma tokenizeComment_pos:
  "input (tokenizeComment l) = input l"
  "pos l < length (input l) \<Longrightarrow> input l ! pos l = CHR ''#'' \<Longrightarrow> pos l < pos (tokenizeComment l)"
  using scan_while_step[of "pos l" "input l" "\<lambda>ch. ch \<noteq> CHR 0x0A"]
  by (simp_all add: tokenizeComment_def addToken_def Let_def)

lemma tokenizeString_pos:
  "input (tokenizeString l q) = input l"
  "pos l < pos (tokenizeString l q)"
  using string_end_ge[of "pos l + 1" q "input l"]
  by (simp_all add: tokenizeString_def addToken_def Let_def)

lemma tokenizeVariable_pos:
  "input (tokenizeVariable l) = input l"
  "pos l < pos (tokenizeVariable l)"
  using scan_while_ge[of "pos l + 1 + 1" "\<lambda>ch. ch \<noteq> CHR ''}''" "input l"]
    scan_while_ge[of "pos l + 1"
      "\<lambda>ch. \<not> (\<not> byte_IsLetter ch \<and> \<not> byte_IsDigit ch \<and> ch \<noteq> CHR ''_'')" "input l"]
  by (auto simp: tokenizeVariable_def addToken_def Let_def)

lemma tokenizeFlag_pos:
  "input (tokenizeFlag l) = input l"
  "pos l < pos (tokenizeFlag l)"
  using scan_while_ge[of "pos l + 1 + 1"
      "\<lambda>ch. \<not> (byte_IsSpace ch \<or> ch \<in> set ''|&;<>()[]{}\"'`$'')" "input l"]
    scan_while_ge[of "pos l + 1"
      "\<lambda>ch. \<not> (byte_IsSpace ch \<or> ch \<in> set ''|&;<>()[]{}\"'`$'')" "input l"]
  by (auto simp: tokenizeFlag_def addToken_def Let_def)

lemma tokenizeOperator_pos:
  "input (tokenizeOperator l) = input l"
  "pos l < pos (tokenizeOperator l)"
  by (auto simp: tokenizeOperator_def addToken_def Let_def)

lemma char_eq_nat: "(ch = c) \<longleftrightarrow> (of_char ch :: nat) = of_char c"
  by (simp add: of_char_eq_iff)

lemma word_start:
  assumes "byte_IsLetter ch \<or> byte_IsDigit ch \<or> ch = CHR ''.'' \<or> ch = CHR ''/''
           \<or> ch = CHR ''_'' \<or> ch = CHR ''~''"
  shows "\<not> (byte_IsSpace ch \<or> ch \<in> set ''|&;<>()[]{}\"'`$#'')"
  using assms
  unfolding byte_IsSpace_def byte_IsLetter_def byte_IsDigit_def Let_def
  by (auto simp: char_eq_nat[of ch])

lemma tokenizeWord_pos:
  "input (fst (tokenizeWord l)) = input l"
  "pos l < length (input l) \<Longrightarrow>
   byte_IsLetter (input l ! pos l) \<or> byte_IsDigit (input l ! pos l) \<or> input l ! pos l = CHR ''.''
     \<or> input l ! pos l = CHR ''/'' \<or> input l ! pos l = CHR ''_'' \<or> input l ! pos l = CHR ''~'' \<Longrightarrow>
   pos l < pos (fst (tokenizeWord l))"
proof -
  show "input (fst (tokenizeWord l)) = input l"
    by (simp add: tokenizeWord_def addToken_def Let_def)
  assume a: "pos l < length (input l)"
    and b: "byte_IsLetter (input l ! pos l) \<or> byte_IsDigit (input l ! pos l)
      \<or> input l ! pos l = CHR ''.'' \<or> input l ! pos l = CHR ''/''
      \<or> input l ! pos l = CHR ''_'' \<or> input l ! pos l = CHR ''~''"
  from scan_while_step[OF a, of "\<lambda>ch. \<not> (byte_IsSpace ch \<or> ch \<in> set ''|&;<>()[]{}\"'`$#'')"]
    word_start[OF b]
  show "pos l < pos (fst (tokenizeWord l))"
    by (simp add: tokenizeWord_def addToken_def Let_def)
qed

lemma classify_word_pos:
  "input (classify_word nd l w f) = input l" "pos (classify_word nd l w f) = pos l"
  by (simp_all add: classify_word_def set_last_type_def)

text \<open>
  The loop of \<open>Tokenize\<close>; \<open>isFirstWord\<close> is its local variable. The result is the
  lexer when the loop ends.
\<close>

function tokenize_loop :: "(string \<Rightarrow> bool) \<Rightarrow> Lexer \<Rightarrow> bool \<Rightarrow> Lexer" where
  "tokenize_loop nd l isFirstWord =
     (if pos l < length (input l) then
        (let ch = input l ! pos l in
         if byte_IsSpace ch then
           tokenize_loop nd ((addToken l TokenDefault (byte_to_string ch))\<lparr>pos := pos l + 1\<rparr>)
             isFirstWord
         else if ch = CHR ''#'' then tokenize_loop nd (tokenizeComment l) isFirstWord
         else if ch = CHR 0x22 \<or> ch = CHR 0x27 \<or> ch = CHR 0x60 then
           tokenize_loop nd (tokenizeString l ch) False
         else if ch = CHR ''$'' then tokenize_loop nd (tokenizeVariable l) False
         else if ch \<in> set ''|&;<>()[]{}!*'' then
           tokenize_loop nd (tokenizeOperator l)
             (if ch = CHR ''|'' \<or> ch = CHR ''&'' \<or> ch = CHR '';'' then True else isFirstWord)
         else if ch = CHR ''-'' \<and> pos l + 1 < length (input l)
                 \<and> \<not> byte_IsSpace (input l ! (pos l + 1)) then
           tokenize_loop nd (tokenizeFlag l) False
         else if byte_IsLetter ch \<or> byte_IsDigit ch \<or> ch = CHR ''.'' \<or> ch = CHR ''/''
                 \<or> ch = CHR ''_'' \<or> ch = CHR ''~'' then
           tokenize_loop nd
             (classify_word nd (fst (tokenizeWord l)) (snd (tokenizeWord l)) isFirstWord) False
         else
           tokenize_loop nd ((addToken l TokenDefault (byte_to_string ch))\<lparr>pos := pos l + 1\<rparr>)
             isFirstWord)
      else l)"
  by pat_completeness auto
termination
proof (relation "measure (\<lambda>(nd, l, f). length (input l) - pos l)", goal_cases)
  case 1
  show ?case by simp
next
  case (2 nd l f ch)
  then show ?case by (simp add: addToken_def)
next
  case (3 nd l f ch)
  then show ?case using tokenizeComment_pos[of l] by simp
next
  case (4 nd l f ch)
  then show ?case using tokenizeString_pos[of l ch] by simp
next
  case (5 nd l f ch)
  then show ?case using tokenizeVariable_pos[of l] by simp
next
  case (6 nd l f ch)
  then show ?case using tokenizeOperator_pos[of l] by simp
next
  case (7 nd l f ch)
  then have "pos l < length (input l)" by simp
  then show ?case using tokenizeFlag_pos[of l] by simp
next
  case (8 nd l f ch)
  then show ?case
    using tokenizeWord_pos[of l] classify_word_pos[of nd "fst (tokenizeWord l)"]
    by simp
next
  case (9 nd l f ch)
  then show ?case by (simp add: addToken_def)
qed

declare tokenize_loop.simps [simp del]

definition Tokenize :: "(string \<Rightarrow> bool) \<Rightarrow> Lexer \<Rightarrow> Token list" where
  "Tokenize nd l = tokens (tokenize_loop nd l True)"

section \<open>Properties of the lexical highlighter\<close>

text \<open>
  C2. The command string that consists of the letter U+00E0 (a with grave) is the two bytes \<open>0xC3 0xA0\<close> in UTF-8. The lexer
  returns two tokens whose literal texts are \<open>0xC3\<close> and \<open>0xC2 0xA0\<close>: the byte \<open>0xA0\<close>
  is taken for a white space (U+00A0) and \<open>string(ch)\<close> re-encodes it as two bytes.
  The concatenation has three bytes and is not the input.
\<close>

theorem Tokenize_not_roundtrip:
  "Tokenize nd (NewLexer [CHR 0xC3, CHR 0xA0]) =
     [\<lparr>Type = TokenCommand, Value = [CHR 0xC3]\<rparr>,
      \<lparr>Type = TokenDefault, Value = [CHR 0xC2, CHR 0xA0]\<rparr>]
   \<and> concat (map Value (Tokenize nd (NewLexer [CHR 0xC3, CHR 0xA0]))) = [CHR 0xC3, CHR 0xC2, CHR 0xA0]
   \<and> concat (map Value (Tokenize nd (NewLexer [CHR 0xC3, CHR 0xA0]))) \<noteq> [CHR 0xC3, CHR 0xA0]"
  by code_simp

subsection \<open>Round trip on ASCII input\<close>

definition lexer_inv :: "Lexer \<Rightarrow> bool" where
  "lexer_inv l =
     (pos l \<le> length (input l) \<and> concat (map Value (tokens l)) = take (pos l) (input l))"

lemma take_slice: "a \<le> b \<Longrightarrow> take a s @ slice s a b = take b s"
  by (metis add_diff_inverse_nat linorder_not_less slice_def take_add)

lemma addToken_slice_inv:
  assumes "lexer_inv l" and "pos l \<le> p" and "p \<le> length (input l)"
  shows "lexer_inv (addToken (l\<lparr>pos := p\<rparr>) ty (slice (input l) (pos l) p))"
  using assms take_slice[of "pos l" p "input l"]
  by (simp add: lexer_inv_def addToken_def)

lemma byte_to_string_ascii:
  assumes "(of_char ch :: nat) < 0x80"
  shows "byte_to_string ch = [ch]"
proof -
  have "(of_char ch :: int) = int (of_char ch)" by (simp only: of_nat_of_char)
  with assms have "0 \<le> (of_char ch :: int)" and "(of_char ch :: int) \<le> 0x7F"
    by linarith+
  then show ?thesis
    by (simp add: byte_to_string_def utf8_encode_def)
qed

lemma single_byte_inv:
  assumes "lexer_inv l" and "pos l < length (input l)" and "(of_char (input l ! pos l) :: nat) < 0x80"
  shows "lexer_inv ((addToken l ty (byte_to_string (input l ! pos l)))\<lparr>pos := pos l + 1\<rparr>)"
  using assms
  by (simp add: lexer_inv_def addToken_def byte_to_string_ascii take_Suc_conv_app_nth)

lemma tokenizeComment_inv: "lexer_inv l \<Longrightarrow> lexer_inv (tokenizeComment l)"
  unfolding tokenizeComment_def Let_def
  by (intro addToken_slice_inv scan_while_ge scan_while_le) (simp_all add: lexer_inv_def)

lemma tokenizeWord_inv: "lexer_inv l \<Longrightarrow> lexer_inv (fst (tokenizeWord l))"
  unfolding tokenizeWord_def Let_def fst_conv
  by (intro addToken_slice_inv scan_while_ge scan_while_le) (simp_all add: lexer_inv_def)

lemma tokenizeString_inv:
  assumes "lexer_inv l" and "pos l < length (input l)"
  shows "lexer_inv (tokenizeString l q)"
  unfolding tokenizeString_def Let_def
  using assms string_end_ge[of "pos l + 1" q "input l"] string_end_le[of "pos l + 1" "input l" q]
  by (intro addToken_slice_inv) simp_all

lemma tokenizeVariable_inv:
  assumes "lexer_inv l" and "pos l < length (input l)"
  shows "lexer_inv (tokenizeVariable l)"
proof -
  let ?P = "\<lambda>ch. \<not> (\<not> byte_IsLetter ch \<and> \<not> byte_IsDigit ch \<and> ch \<noteq> CHR ''_'')"
  let ?Q = "\<lambda>ch. ch \<noteq> CHR ''}''"
  let ?p = "if pos l + 1 < length (input l) \<and> input l ! (pos l + 1) = CHR ''{'' then
              (let p2 = scan_while ?Q (input l) (pos l + 1 + 1) in
               if p2 < length (input l) then p2 + 1 else p2)
            else scan_while ?P (input l) (pos l + 1)"
  have "pos l \<le> ?p \<and> ?p \<le> length (input l)"
    using assms(2) scan_while_ge[of "pos l + 1 + 1" ?Q "input l"]
      scan_while_le[of "pos l + 1 + 1" "input l" ?Q]
      scan_while_ge[of "pos l + 1" ?P "input l"] scan_while_le[of "pos l + 1" "input l" ?P]
    by (auto simp: Let_def)
  then show ?thesis
    unfolding tokenizeVariable_def Let_def
    using assms(1) by (intro addToken_slice_inv) (simp_all add: Let_def)
qed

lemma tokenizeFlag_inv:
  assumes "lexer_inv l" and "pos l + 1 < length (input l)"
  shows "lexer_inv (tokenizeFlag l)"
proof -
  let ?P = "\<lambda>ch. \<not> (byte_IsSpace ch \<or> ch \<in> set ''|&;<>()[]{}\"'`$'')"
  let ?p2 = "if pos l + 1 < length (input l) \<and> input l ! (pos l + 1) = CHR ''-''
             then pos l + 1 + 1 else pos l + 1"
  have "pos l \<le> scan_while ?P (input l) ?p2 \<and> scan_while ?P (input l) ?p2 \<le> length (input l)"
    using assms(2) scan_while_ge[of ?p2 ?P "input l"] scan_while_le[of ?p2 "input l" ?P]
    by (auto split: if_splits)
  then show ?thesis
    unfolding tokenizeFlag_def Let_def
    using assms(1) by (intro addToken_slice_inv) simp_all
qed

lemma tokenizeOperator_inv:
  assumes "lexer_inv l" and "pos l < length (input l)"
  shows "lexer_inv (tokenizeOperator l)"
  unfolding tokenizeOperator_def Let_def
  using assms by (intro addToken_slice_inv) (auto simp: Let_def)

lemma classify_word_inv:
  assumes "lexer_inv l" and "tokens l \<noteq> []"
  shows "lexer_inv (classify_word nd l w f)"
proof -
  have "map Value (butlast (tokens l) @ [(last (tokens l))\<lparr>Type := ty\<rparr>]) = map Value (tokens l)" for ty
    using assms(2) by (cases "tokens l" rule: rev_cases) simp_all
  then show ?thesis
    using assms(1) by (simp add: classify_word_def set_last_type_def lexer_inv_def)
qed

lemma tokenizeWord_tokens: "tokens (fst (tokenizeWord l)) \<noteq> []"
  by (simp add: tokenizeWord_def addToken_def Let_def)

lemma tokenize_loop_inv:
  assumes "list_all (\<lambda>ch. (of_char ch :: nat) < 0x80) (input l)" and "lexer_inv l"
  shows "lexer_inv (tokenize_loop nd l f) \<and> pos (tokenize_loop nd l f) = length (input l)
         \<and> input (tokenize_loop nd l f) = input l"
  using assms
proof (induction nd l f rule: tokenize_loop.induct)
  case (1 nd l f)
  show ?case
  proof (cases "pos l < length (input l)")
    case False
    with "1.prems"(2) show ?thesis
      by (subst (1 2 3) tokenize_loop.simps) (simp add: lexer_inv_def)
  next
    case True
    let ?ch = "input l ! pos l"
    from "1.prems"(1) True have asc: "(of_char ?ch :: nat) < 0x80"
      by (simp add: list_all_length)
    let ?single = "(addToken l TokenDefault (byte_to_string ?ch))\<lparr>pos := pos l + 1\<rparr>"
    have s_inv: "lexer_inv ?single" by (rule single_byte_inv[OF "1.prems"(2) True asc])
    have s_in: "input ?single = input l" by (simp add: addToken_def)
    note ih = "1.IH"[OF True refl]
    consider (space) "byte_IsSpace ?ch"
      | (comment) "\<not> byte_IsSpace ?ch" "?ch = CHR ''#''"
      | (str) "\<not> byte_IsSpace ?ch" "?ch \<noteq> CHR ''#''"
              "?ch = CHR 0x22 \<or> ?ch = CHR 0x27 \<or> ?ch = CHR 0x60"
      | (var) "\<not> byte_IsSpace ?ch" "?ch \<noteq> CHR ''#''"
              "\<not> (?ch = CHR 0x22 \<or> ?ch = CHR 0x27 \<or> ?ch = CHR 0x60)" "?ch = CHR ''$''"
      | (op) "\<not> byte_IsSpace ?ch" "?ch \<noteq> CHR ''#''"
              "\<not> (?ch = CHR 0x22 \<or> ?ch = CHR 0x27 \<or> ?ch = CHR 0x60)" "?ch \<noteq> CHR ''$''"
              "?ch \<in> set ''|&;<>()[]{}!*''"
      | (flag) "\<not> byte_IsSpace ?ch" "?ch \<noteq> CHR ''#''"
              "\<not> (?ch = CHR 0x22 \<or> ?ch = CHR 0x27 \<or> ?ch = CHR 0x60)" "?ch \<noteq> CHR ''$''"
              "?ch \<notin> set ''|&;<>()[]{}!*''"
              "?ch = CHR ''-'' \<and> pos l + 1 < length (input l) \<and> \<not> byte_IsSpace (input l ! (pos l + 1))"
      | (word) "\<not> byte_IsSpace ?ch" "?ch \<noteq> CHR ''#''"
              "\<not> (?ch = CHR 0x22 \<or> ?ch = CHR 0x27 \<or> ?ch = CHR 0x60)" "?ch \<noteq> CHR ''$''"
              "?ch \<notin> set ''|&;<>()[]{}!*''"
              "\<not> (?ch = CHR ''-'' \<and> pos l + 1 < length (input l) \<and> \<not> byte_IsSpace (input l ! (pos l + 1)))"
              "byte_IsLetter ?ch \<or> byte_IsDigit ?ch \<or> ?ch = CHR ''.'' \<or> ?ch = CHR ''/''
                 \<or> ?ch = CHR ''_'' \<or> ?ch = CHR ''~''"
      | (other) "\<not> byte_IsSpace ?ch" "?ch \<noteq> CHR ''#''"
              "\<not> (?ch = CHR 0x22 \<or> ?ch = CHR 0x27 \<or> ?ch = CHR 0x60)" "?ch \<noteq> CHR ''$''"
              "?ch \<notin> set ''|&;<>()[]{}!*''"
              "\<not> (?ch = CHR ''-'' \<and> pos l + 1 < length (input l) \<and> \<not> byte_IsSpace (input l ! (pos l + 1)))"
              "\<not> (byte_IsLetter ?ch \<or> byte_IsDigit ?ch \<or> ?ch = CHR ''.'' \<or> ?ch = CHR ''/''
                 \<or> ?ch = CHR ''_'' \<or> ?ch = CHR ''~'')"
      by blast
    then show ?thesis
    proof cases
      case space
      from ih(1)[OF space] "1.prems"(1) s_inv s_in
      have "lexer_inv (tokenize_loop nd ?single f) \<and> pos (tokenize_loop nd ?single f) = length (input l)
            \<and> input (tokenize_loop nd ?single f) = input l" by simp
      moreover have "tokenize_loop nd l f = tokenize_loop nd ?single f"
        using True space by (subst tokenize_loop.simps) (simp add: Let_def)
      ultimately show ?thesis by simp
    next
      case comment
      let ?l' = "tokenizeComment l"
      have "input ?l' = input l" by (rule tokenizeComment_pos)
      with ih(2)[OF comment] "1.prems"(1) tokenizeComment_inv[OF "1.prems"(2)]
      have "lexer_inv (tokenize_loop nd ?l' f) \<and> pos (tokenize_loop nd ?l' f) = length (input l)
            \<and> input (tokenize_loop nd ?l' f) = input l" by simp
      moreover have "tokenize_loop nd l f = tokenize_loop nd ?l' f"
        using True comment by (subst tokenize_loop.simps) (simp add: Let_def)
      ultimately show ?thesis by simp
    next
      case str
      let ?l' = "tokenizeString l ?ch"
      have "input ?l' = input l" by (rule tokenizeString_pos)
      with ih(3)[OF str] "1.prems"(1) tokenizeString_inv[OF "1.prems"(2) True]
      have "lexer_inv (tokenize_loop nd ?l' False) \<and> pos (tokenize_loop nd ?l' False) = length (input l)
            \<and> input (tokenize_loop nd ?l' False) = input l" by simp
      moreover have "tokenize_loop nd l f = tokenize_loop nd ?l' False"
        using True str by (subst tokenize_loop.simps) (simp add: Let_def)
      ultimately show ?thesis by simp
    next
      case var
      let ?l' = "tokenizeVariable l"
      have "input ?l' = input l" by (rule tokenizeVariable_pos)
      with ih(4)[OF var] "1.prems"(1) tokenizeVariable_inv[OF "1.prems"(2) True]
      have "lexer_inv (tokenize_loop nd ?l' False) \<and> pos (tokenize_loop nd ?l' False) = length (input l)
            \<and> input (tokenize_loop nd ?l' False) = input l" by simp
      moreover have "tokenize_loop nd l f = tokenize_loop nd ?l' False"
        using True var by (subst tokenize_loop.simps) (simp add: Let_def)
      ultimately show ?thesis by simp
    next
      case op
      let ?l' = "tokenizeOperator l"
      let ?f' = "if ?ch = CHR ''|'' \<or> ?ch = CHR ''&'' \<or> ?ch = CHR '';'' then True else f"
      have "input ?l' = input l" by (rule tokenizeOperator_pos)
      with ih(5)[OF op] "1.prems"(1) tokenizeOperator_inv[OF "1.prems"(2) True]
      have "lexer_inv (tokenize_loop nd ?l' ?f') \<and> pos (tokenize_loop nd ?l' ?f') = length (input l)
            \<and> input (tokenize_loop nd ?l' ?f') = input l" by simp
      moreover have "tokenize_loop nd l f = tokenize_loop nd ?l' ?f'"
        using True op by (subst tokenize_loop.simps) (simp add: Let_def)
      ultimately show ?thesis by simp
    next
      case flag
      let ?l' = "tokenizeFlag l"
      have "input ?l' = input l" by (rule tokenizeFlag_pos)
      moreover have "lexer_inv ?l'" using flag(6) by (intro tokenizeFlag_inv[OF "1.prems"(2)]) simp
      ultimately
      have "lexer_inv (tokenize_loop nd ?l' False) \<and> pos (tokenize_loop nd ?l' False) = length (input l)
            \<and> input (tokenize_loop nd ?l' False) = input l"
        using ih(6)[OF flag] "1.prems"(1) by simp
      moreover have "tokenize_loop nd l f = tokenize_loop nd ?l' False"
        using True flag by (subst tokenize_loop.simps) (simp add: Let_def)
      ultimately show ?thesis by simp
    next
      case word
      let ?l' = "classify_word nd (fst (tokenizeWord l)) (snd (tokenizeWord l)) f"
      have "input ?l' = input l" by (simp add: classify_word_pos tokenizeWord_pos)
      moreover have "lexer_inv ?l'"
        by (intro classify_word_inv tokenizeWord_inv "1.prems"(2) tokenizeWord_tokens)
      ultimately
      have "lexer_inv (tokenize_loop nd ?l' False) \<and> pos (tokenize_loop nd ?l' False) = length (input l)
            \<and> input (tokenize_loop nd ?l' False) = input l"
        using ih(7)[OF word] "1.prems"(1) by simp
      moreover have "tokenize_loop nd l f = tokenize_loop nd ?l' False"
        using True word by (subst tokenize_loop.simps) (auto simp: Let_def)
      ultimately show ?thesis by simp
    next
      case other
      from ih(8)[OF other] "1.prems"(1) s_inv s_in
      have "lexer_inv (tokenize_loop nd ?single f) \<and> pos (tokenize_loop nd ?single f) = length (input l)
            \<and> input (tokenize_loop nd ?single f) = input l" by simp
      moreover have "tokenize_loop nd l f = tokenize_loop nd ?single f"
        using True other by (subst tokenize_loop.simps) (auto simp: Let_def)
      ultimately show ?thesis by simp
    qed
  qed
qed

text \<open>
  On a command string of ASCII bytes the concatenation of the literal texts of the
  tokens is the command string.
\<close>

lemma Tokenize_roundtrip_ascii:
  assumes "list_all (\<lambda>ch. (of_char ch :: nat) < 0x80) cmd"
  shows "concat (map Value (Tokenize nd (NewLexer cmd))) = cmd"
proof -
  have "lexer_inv (NewLexer cmd)" by (simp add: lexer_inv_def NewLexer_def)
  from tokenize_loop_inv[OF _ this, of nd True] assms
  show ?thesis by (simp add: Tokenize_def lexer_inv_def NewLexer_def)
qed

end
